theory Spec2Isabelle
  imports Complex_Main
begin

section \<open>Events of the timeline\<close>

text \<open>
  A JavaScript \<open>throw new Error(msg)\<close> is the value \<open>Error msg\<close>; reading a property of
  \<open>undefined\<close> (an array read out of range followed by a method call) raises a
  \<open>TypeError\<close>.
\<close>

datatype error = Error string | TypeError

text \<open>
  Modelled from the spec: the classes \<open>TempoEvent\<close> (models/tempo) and
  \<open>TimeSignatureEvent\<close> (models/time\_signature) are not among the sources. After the
  spec's data model and the accessors the song calls, a tempo event has the tick of the
  change, the tempo in beats per minute and the stored absolute time in seconds; a time
  signature event has a tick, a numerator and a denominator. Ticks are integer-valued
  numbers; tempo and time are numbers, taken here as real numbers (exact arithmetic, no
  floating-point rounding).
\<close>

record TempoEvent =
  ticks :: int
  bpm :: real
  time :: real

record TimeSignatureEvent =
  tsTicks :: int
  numerator :: int
  denominator :: int

section \<open>The bounds of the package binary-search-bounds\<close>

text \<open>
  Modelled from the spec: \<open>greaterEqual\<close> and \<open>lowerThan\<close> are not among the sources; they
  are the functions \<open>ge\<close> and \<open>lt\<close> of the external package binary-search-bounds, called
  on the whole array (\<open>l = 0\<close>, \<open>h = length - 1\<close>). After the spec, the insertion point of
  an event is the first position whose tick is not less than the new tick, and a lookup
  finds the last event strictly less than the query, or none. The package finds them by
  bisection, which is what is written here: \<open>ge\<close> starts from \<open>i = h + 1\<close> and moves left while
  the comparator is \<open>\<ge> 0\<close>, \<open>lt\<close> starts from \<open>i = l - 1\<close> and moves right while the
  comparator is \<open>< 0\<close>. On an array sorted by the comparator, \<open>ge\<close> is the index of the
  first item not less than the query (the length when there is none) and \<open>lt\<close> the index
  of the last item less than it (\<open>-1\<close> when there is none). The comparator is applied to
  the query already: \<open>c x\<close> is \<open>cmp(x, y)\<close>.
\<close>

function bs_ge :: "'a list \<Rightarrow> ('a \<Rightarrow> 'n::linordered_idom) \<Rightarrow> int \<Rightarrow> int \<Rightarrow> int \<Rightarrow> int" where
  "bs_ge a c l h i =
     (if l \<le> h
      then (if c (a ! nat ((l + h) div 2)) \<ge> 0
            then bs_ge a c l ((l + h) div 2 - 1) ((l + h) div 2)
            else bs_ge a c ((l + h) div 2 + 1) h i)
      else i)"
  by pat_completeness auto
termination
  by (relation "measure (\<lambda>(a, c, l, h, i). nat (h - l + 1))") auto

function bs_lt :: "'a list \<Rightarrow> ('a \<Rightarrow> 'n::linordered_idom) \<Rightarrow> int \<Rightarrow> int \<Rightarrow> int \<Rightarrow> int" where
  "bs_lt a c l h i =
     (if l \<le> h
      then (if c (a ! nat ((l + h) div 2)) < 0
            then bs_lt a c ((l + h) div 2 + 1) h ((l + h) div 2)
            else bs_lt a c l ((l + h) div 2 - 1) i)
      else i)"
  by pat_completeness auto
termination
  by (relation "measure (\<lambda>(a, c, l, h, i). nat (h - l + 1))") auto

declare bs_ge.simps [simp del] bs_lt.simps [simp del]

definition greaterEqual :: "'a list \<Rightarrow> 'b \<Rightarrow> ('a \<Rightarrow> 'b \<Rightarrow> 'n::linordered_idom) \<Rightarrow> int" where
  "greaterEqual a y c = bs_ge a (\<lambda>x. c x y) 0 (int (length a) - 1) (int (length a))"

definition lowerThan :: "'a list \<Rightarrow> 'b \<Rightarrow> ('a \<Rightarrow> 'b \<Rightarrow> 'n::linordered_idom) \<Rightarrow> int" where
  "lowerThan a y c = bs_lt a (\<lambda>x. c x y) 0 (int (length a) - 1) (- 1)"

text \<open>
  \<open>Array.prototype.splice(start, 0, x)\<close>: a negative \<open>start\<close> counts from the end, and the
  position is clamped to the array.
\<close>

definition splice_insert :: "'a list \<Rightarrow> int \<Rightarrow> 'a \<Rightarrow> 'a list" where
  "splice_insert xs start x =
     (let n = int (length xs);
          k = (if start < 0 then max (n + start) 0 else min start n)
      in take (nat k) xs @ [x] @ drop (nat k) xs)"


text \<open>
  \<open>Array.prototype.splice(start, 1)\<close>: removes one element at the clamped position (none
  when the position is the length of the array).
\<close>

definition splice_remove :: "'a list \<Rightarrow> int \<Rightarrow> 'a list" where
  "splice_remove xs start =
     (let n = int (length xs);
          k = (if start < 0 then max (n + start) 0 else min start n)
      in take (nat k) xs @ drop (Suc (nat k)) xs)"

text \<open>\<open>_.findIndex\<close> of underscore: the index of the first match, \<open>-1\<close> when there is none.\<close>

fun findIndex :: "'a list \<Rightarrow> ('a \<Rightarrow> bool) \<Rightarrow> int" where
  "findIndex [] P = - 1"
| "findIndex (x # xs) P =
     (if P x then 0 else (if findIndex xs P < 0 then - 1 else findIndex xs P + 1))"

section \<open>Tracks, plugins and the song\<close>

text \<open>
  Modelled from the spec: the classes \<open>Track\<close>, \<open>Clip\<close>, \<open>Note\<close>, the automation container
  and the enumeration \<open>TrackType\<close> (models/track, models/clip, models/note,
  models/automation) are not among the sources.
  A track carries what \<open>createTrack\<close> gives it (type, identifier, rank) and what the spec's
  import section says a track receives: an instrument (program, percussion flag), clips
  with notes, and the point sequences (tick, value) of the volume and pan automation
  targets, absent until the target is added.
\<close>

datatype TrackType = MIDI_TRACK | AUDIO_TRACK

record Note =
  pitch :: int
  velocity :: int
  startTick :: int
  endTick :: int

record Clip =
  clipStartTick :: int
  clipNotes :: "Note list"

record Track =
  trackType :: TrackType
  uuid :: string
  rank :: int
  instrument :: "(int \<times> bool) option"
  clips :: "Clip list"
  volumeAutomation :: "(int \<times> real) list option"
  panAutomation :: "(int \<times> real) list option"

text \<open>
  A plugin instance (base\_plugin.ts). \<open>providerId\<close> and \<open>pluginId\<close> are the static methods of
  the plugin's class: \<open>None\<close> when the class does not overwrite them, and the base class
  then throws. \<open>songAccess\<close> holds the names the object returned by \<open>songAccess()\<close> maps to
  a truthy value. \<open>generatedTrackIdsInternal\<close> is the pool of identifiers the instance
  keeps across runs.
\<close>

record Plugin =
  providerId :: "string option"
  pluginId :: "string option"
  songAccess :: "string set"
  generatedTrackIdsInternal :: "string list"

definition id_static :: "Plugin \<Rightarrow> error + string" where
  "id_static p =
     (case providerId p of
        None \<Rightarrow> Inl (Error ''providerId() should be overwritten.'')
      | Some a \<Rightarrow>
          (case pluginId p of
             None \<Rightarrow> Inl (Error ''pluginId() should be overwritten.'')
           | Some b \<Rightarrow> Inr (a @ ''.'' @ b)))"

text \<open>
  Plugin instances are objects shared between the host and the song's context, so they
  live in a store, and the context holds a reference. The store also holds the source of
  \<open>Track.generateTrackIdInternal()\<close> (not among the sources; it draws a random identifier):
  the \<open>n\<close>-th identifier it will return, and how many it has returned.
\<close>

record World =
  plugins :: "nat \<Rightarrow> Plugin"
  idSource :: "nat \<Rightarrow> string"
  idsDrawn :: nat

record PluginContext =
  plugin :: nat
  numTracksCreatedByPlugin :: nat

record Song =
  tracks :: "Track list"
  PPQ :: int
  tempos :: "TempoEvent list"
  timeSignatures :: "TimeSignatureEvent list"
  pluginContext :: "PluginContext option"
  nextTrackRank :: int

definition newSong :: Song where
  "newSong = \<lparr>tracks = [], PPQ = 0, tempos = [], timeSignatures = [],
              pluginContext = None, nextTrackRank = 1\<rparr>"

definition getTrackById :: "Song \<Rightarrow> string \<Rightarrow> Track option" where
  "getTrackById s trackId = find (\<lambda>track. uuid track = trackId) (tracks s)"

definition getTrackIndex :: "Song \<Rightarrow> string \<Rightarrow> int" where
  "getTrackIndex s trackId = findIndex (tracks s) (\<lambda>track. uuid track = trackId)"

definition setResolution :: "int \<Rightarrow> Song \<Rightarrow> Song" where
  "setResolution resolution s = s\<lparr>PPQ := resolution\<rparr>"

definition setPluginContextInternal :: "nat \<Rightarrow> Song \<Rightarrow> Song" where
  "setPluginContextInternal p s =
     s\<lparr>pluginContext := Some \<lparr>plugin = p, numTracksCreatedByPlugin = 0\<rparr>\<rparr>"

definition clearPluginContextInternal :: "Song \<Rightarrow> Song" where
  "clearPluginContextInternal s = s\<lparr>pluginContext := None\<rparr>"

section \<open>The timeline engine\<close>

definition tempoBPMToTicksPerSecond :: "real \<Rightarrow> int \<Rightarrow> real" where
  "tempoBPMToTicksPerSecond tempoBPM ppq = (tempoBPM * real_of_int ppq) / 60"

text \<open>
  \<open>tickToSecondsImpl\<close>: the read \<open>tempos[baseTempoIndex]\<close> is \<open>undefined\<close> out of range (an
  empty tempo list), and the call of \<open>getTicks\<close> on it raises.
\<close>

definition tickToSecondsImpl :: "int \<Rightarrow> TempoEvent list \<Rightarrow> int \<Rightarrow> error + real" where
  "tickToSecondsImpl tick tmps resolution =
     (if tick = 0 then Inr 0
      else
        let found = lowerThan tmps tick (\<lambda>a b. ticks a - b);
            baseTempoIndex = (if found = - 1 then 0 else found)
        in if 0 \<le> baseTempoIndex \<and> nat baseTempoIndex < length tmps
           then
             let baseTempoChange = tmps ! nat baseTempoIndex;
                 ticksDelta = tick - ticks baseTempoChange;
                 ticksPerSecondSinceLastTempoChange =
                   tempoBPMToTicksPerSecond (bpm baseTempoChange) resolution
             in Inr (time baseTempoChange
                     + real_of_int ticksDelta / ticksPerSecondSinceLastTempoChange)
           else Inl TypeError)"

definition tickToSeconds :: "Song \<Rightarrow> int \<Rightarrow> error + real" where
  "tickToSeconds s tick = tickToSecondsImpl tick (tempos s) (PPQ s)"


text \<open>
  \<open>retimingTempoEvents\<close>: the sort is stable, and the loop writes the time of one event
  after the other into the list that \<open>tickToSeconds\<close> reads.
\<close>

fun retimingLoop :: "nat list \<Rightarrow> Song \<Rightarrow> (error + unit) \<times> Song" where
  "retimingLoop [] s = (Inr (), s)"
| "retimingLoop (i # rest) s =
     (case tickToSeconds s (ticks (tempos s ! i)) of
        Inl e \<Rightarrow> (Inl e, s)
      | Inr v \<Rightarrow> retimingLoop rest (s\<lparr>tempos := (tempos s)[i := (tempos s ! i)\<lparr>time := v\<rparr>]\<rparr>))"

definition retimingTempoEvents :: "Song \<Rightarrow> (error + unit) \<times> Song" where
  "retimingTempoEvents s =
     (let s1 = s\<lparr>tempos := sort_key ticks (tempos s)\<rparr>
      in retimingLoop [0..<length (tempos s1)] s1)"

text \<open>
  \<open>createTempoChange\<close> returns the event it built; the stored event is the same object,
  whose time the retiming pass then writes again.
\<close>

definition createTempoChange :: "int \<Rightarrow> real \<Rightarrow> Song \<Rightarrow> (error + TempoEvent) \<times> Song" where
  "createTempoChange tk b s =
     (if PPQ s \<le> 0
      then (Inl (Error ''Song resolution must be provided before creating tempo changes.''), s)
      else if length (tempos s) = 0 \<and> tk \<noteq> 0
      then (Inl (Error ''The first tempo event must be at tick 0''), s)
      else
        (case tickToSeconds s tk of
           Inl e \<Rightarrow> (Inl e, s)
         | Inr tm \<Rightarrow>
             let tempoChange = \<lparr>ticks = tk, bpm = b, time = tm\<rparr>;
                 insertIndex = greaterEqual (tempos s) tempoChange (\<lambda>a b. ticks a - ticks b);
                 s1 = (if insertIndex < 0
                       then s\<lparr>tempos := tempos s @ [tempoChange]\<rparr>
                       else s\<lparr>tempos := splice_insert (tempos s) insertIndex tempoChange\<rparr>)
             in (case retimingTempoEvents s1 of
                   (Inl e, s2) \<Rightarrow> (Inl e, s2)
                 | (Inr u, s2) \<Rightarrow> (Inr tempoChange, s2))))"

fun overwriteLoop :: "TempoEvent list \<Rightarrow> Song \<Rightarrow> (error + unit) \<times> Song" where
  "overwriteLoop [] s = (Inr (), s)"
| "overwriteLoop (tempoEvent # rest) s =
     (case createTempoChange (ticks tempoEvent) (bpm tempoEvent) s of
        (Inl e, s1) \<Rightarrow> (Inl e, s1)
      | (Inr t, s1) \<Rightarrow> overwriteLoop rest s1)"

definition overwriteTempoChanges :: "TempoEvent list \<Rightarrow> Song \<Rightarrow> (error + unit) \<times> Song" where
  "overwriteTempoChanges tempoEvents s =
     (if length tempoEvents = 0
      then (Inl (Error ''Cannot clear all the tempo events.''), s)
      else
        (case sort_key ticks tempoEvents of
           [] \<Rightarrow> (Inl TypeError, s)
         | firstTempoEvent # rest \<Rightarrow>
             if ticks firstTempoEvent > 0
             then (Inl (Error ''The first tempo event needs to start from tick 0''), s)
             else overwriteLoop rest
                    (s\<lparr>tempos := [\<lparr>ticks = 0, bpm = bpm firstTempoEvent, time = 0\<rparr>]\<rparr>)))"

definition overwriteTimeSignatures :: "TimeSignatureEvent list \<Rightarrow> Song \<Rightarrow> Song" where
  "overwriteTimeSignatures tss s = s\<lparr>timeSignatures := tss\<rparr>"

text \<open>
  \<open>updateTempo\<close> takes a reference to a tempo event; the reference is the position of the
  event in the song's list, and an event that is not in the list changes nothing there.
\<close>

definition updateTempo :: "nat \<Rightarrow> real \<Rightarrow> Song \<Rightarrow> (error + unit) \<times> Song" where
  "updateTempo i newBPM s =
     retimingTempoEvents (s\<lparr>tempos := (tempos s)[i := (tempos s ! i)\<lparr>bpm := newBPM\<rparr>]\<rparr>)"


section \<open>The capability gate and the identifier pool\<close>

definition checkAccess :: "string \<Rightarrow> World \<Rightarrow> Song \<Rightarrow> error + unit" where
  "checkAccess accessName w s =
     (case pluginContext s of
        None \<Rightarrow>
          Inl (Error (''Song needs to be accessed in a plugin context ''
                      @ ''in order to use privileged methods.''))
      | Some ctx \<Rightarrow>
          if accessName \<notin> songAccess (plugins w (plugin ctx))
          then (case id_static (plugins w (plugin ctx)) of
                  Inl e \<Rightarrow> Inl e
                | Inr pid \<Rightarrow>
                    Inl (Error (''Plugin '' @ pid @ '' requires access '' @ accessName
                                @ '' in order to run.'')))
          else Inr ())"

definition getNextTrackRank :: "Song \<Rightarrow> int \<times> Song" where
  "getNextTrackRank s = (nextTrackRank s, s\<lparr>nextTrackRank := nextTrackRank s + 1\<rparr>)"

text \<open>
  \<open>getNextTrackId\<close> casts the context without a check, so a missing context raises at the
  first property read. When the counter equals the size of the pool a fresh identifier is
  pushed onto the pool of the plugin instance.
\<close>

definition getNextTrackId :: "World \<Rightarrow> Song \<Rightarrow> (error + string) \<times> World \<times> Song" where
  "getNextTrackId w s =
     (case pluginContext s of
        None \<Rightarrow> (Inl TypeError, w, s)
      | Some ctx \<Rightarrow>
          let p = plugins w (plugin ctx);
              n = numTracksCreatedByPlugin ctx;
              grow = (n = length (generatedTrackIdsInternal p));
              w1 = (if grow
                    then w\<lparr>plugins := (plugins w)(plugin ctx :=
                                p\<lparr>generatedTrackIdsInternal :=
                                     generatedTrackIdsInternal p @ [idSource w (idsDrawn w)]\<rparr>),
                           idsDrawn := Suc (idsDrawn w)\<rparr>
                    else w)
          in if \<not> grow \<and> n > length (generatedTrackIdsInternal p)
             then (Inl (Error ''Plugin generated track ids out of sync.''), w, s)
             else (Inr (generatedTrackIdsInternal (plugins w1 (plugin ctx)) ! n), w1,
                   s\<lparr>pluginContext := Some (ctx\<lparr>numTracksCreatedByPlugin := n + 1\<rparr>)\<rparr>))"

text \<open>
  \<open>createTrack\<close>: \<open>index\<close> and \<open>rank\<close> are \<open>None\<close> when left blank. The parameter \<open>rank\<close> is
  assigned in the first branch, so the second test of \<open>rank\<close> always takes it as it is.
  A new track has no instrument, no clip and no automation yet.
\<close>

definition createTrack ::
  "TrackType \<Rightarrow> int option \<Rightarrow> int option \<Rightarrow> World \<Rightarrow> Song \<Rightarrow> (error + Track) \<times> World \<times> Song" where
  "createTrack type index rk w s =
     (case checkAccess ''createTrack'' w s of
        Inl e \<Rightarrow> (Inl e, w, s)
      | Inr u \<Rightarrow>
          let (rank1, s1) = (case rk of
                               None \<Rightarrow> getNextTrackRank s
                             | Some r \<Rightarrow> (r, s\<lparr>nextTrackRank := max (r + 1) (nextTrackRank s)\<rparr>))
          in (case getNextTrackId w s1 of
                (Inl e, w2, s2) \<Rightarrow> (Inl e, w2, s2)
              | (Inr tid, w2, s2) \<Rightarrow>
                  let track = \<lparr>trackType = type, uuid = tid, rank = rank1, instrument = None,
                               clips = [], volumeAutomation = None, panAutomation = None\<rparr>;
                      s3 = (case index of
                              Some i \<Rightarrow> s2\<lparr>tracks := splice_insert (tracks s2) i track\<rparr>
                            | None \<Rightarrow> s2\<lparr>tracks := tracks s2 @ [track]\<rparr>)
                  in (Inr track, w2, s3)))"

text \<open>\<open>removeTrack\<close> returns \<open>null\<close> (\<open>None\<close>) when no track has the identifier.\<close>

definition removeTrack ::
  "string \<Rightarrow> World \<Rightarrow> Song \<Rightarrow> (error + Track option) \<times> World \<times> Song" where
  "removeTrack trackId w s =
     (case checkAccess ''removeTrack'' w s of
        Inl e \<Rightarrow> (Inl e, w, s)
      | Inr u \<Rightarrow>
          (case getTrackById s trackId of
             None \<Rightarrow> (Inr None, w, s)
           | Some track \<Rightarrow>
               (Inr (Some track), w,
                s\<lparr>tracks := splice_remove (tracks s)
                               (findIndex (tracks s) (\<lambda>track. uuid track = trackId))\<rparr>)))"

text \<open>A run of a plugin, as far as tracks go: one \<open>createTrack\<close> call after the other.\<close>

fun createTracks ::
  "(TrackType \<times> int option \<times> int option) list \<Rightarrow> World \<Rightarrow> Song
     \<Rightarrow> (error + Track list) \<times> World \<times> Song" where
  "createTracks [] w s = (Inr [], w, s)"
| "createTracks ((type, index, rk) # rest) w s =
     (case createTrack type index rk w s of
        (Inl e, w1, s1) \<Rightarrow> (Inl e, w1, s1)
      | (Inr track, w1, s1) \<Rightarrow>
          (case createTracks rest w1 s1 of
             (Inl e, w2, s2) \<Rightarrow> (Inl e, w2, s2)
           | (Inr created, w2, s2) \<Rightarrow> (Inr (track # created), w2, s2)))"

section \<open>The import merger\<close>

definition scaleIntBy :: "int \<Rightarrow> real \<Rightarrow> int" where
  "scaleIntBy val factor = round (real_of_int val * factor)"

text \<open>
  The decoded file (the class \<open>Midi\<close> of the external package @tonejs/midi): the header
  with its resolution, time signatures and tempos, and the tracks with their notes and
  control changes. \<open>controlChanges7\<close> and \<open>controlChanges10\<close> are \<open>None\<close> when the track has
  no stream for the controller.
\<close>

record RawNote =
  noteMidi :: int
  noteVelocity :: real
  noteTicks :: int
  noteDurationTicks :: int

record RawControlChange =
  ccTicks :: int
  ccValue :: real

record RawTrack =
  instrumentNumber :: int
  instrumentPercussion :: bool
  rawNotes :: "RawNote list"
  controlChanges7 :: "RawControlChange list option"
  controlChanges10 :: "RawControlChange list option"

record RawTempo =
  rawTempoTicks :: int
  rawTempoTime :: real
  rawTempoBpm :: real

record RawTimeSignature =
  rawTsTicks :: int
  rawTsNumerator :: int
  rawTsDenominator :: int

record Midi =
  headerPpq :: int
  headerTimeSignatures :: "RawTimeSignature list"
  headerTempos :: "RawTempo list"
  midiTracks :: "RawTrack list"

definition MAX_SAFE_INTEGER :: int where
  "MAX_SAFE_INTEGER = 9007199254740991"

text \<open>
  Modelled from the spec: \<open>Clip.createNote\<close>, \<open>Clip.adjustClipLeft\<close>, \<open>Track.setInstrument\<close>,
  \<open>Track.createMIDIClip\<close> and \<open>AutomationValue.addPoint\<close> are not among the sources. After
  the spec, a clip keeps its notes ordered by start tick, ties broken by insertion order;
  every imported note is kept; adjusting the left boundary of a clip moves its start tick
  and leaves the notes where they are; a point is added to the point sequence of its
  target.
\<close>

fun insertNote :: "Note \<Rightarrow> Note list \<Rightarrow> Note list" where
  "insertNote n [] = [n]"
| "insertNote n (m # ms) =
     (if startTick n < startTick m then n # m # ms else m # insertNote n ms)"

definition createNote :: "Note \<Rightarrow> Clip \<Rightarrow> Clip" where
  "createNote n c = c\<lparr>clipNotes := insertNote n (clipNotes c)\<rparr>"

definition adjustClipLeft :: "int \<Rightarrow> Clip \<Rightarrow> Clip" where
  "adjustClipLeft tk c = c\<lparr>clipStartTick := tk\<rparr>"

definition addPoint :: "int \<Rightarrow> real \<Rightarrow> (int \<times> real) list \<Rightarrow> (int \<times> real) list" where
  "addPoint tk v points = points @ [(tk, v)]"

text \<open>The loops of \<open>importMIDI\<close> over the notes and the control changes of one track.\<close>

fun importNotes :: "RawNote list \<Rightarrow> int \<Rightarrow> real \<Rightarrow> Clip \<times> int \<Rightarrow> Clip \<times> int" where
  "importNotes [] insertOffset ppqScaleFactor (trackClip, minStartTick) =
     (trackClip, minStartTick)"
| "importNotes (note # rest) insertOffset ppqScaleFactor (trackClip, minStartTick) =
     importNotes rest insertOffset ppqScaleFactor
       (createNote
          \<lparr>pitch = noteMidi note,
           velocity = round (noteVelocity note * 127),
           startTick = insertOffset + scaleIntBy (noteTicks note) ppqScaleFactor,
           endTick = insertOffset
                     + scaleIntBy (noteTicks note + noteDurationTicks note) ppqScaleFactor\<rparr>
          trackClip,
        min minStartTick (insertOffset + scaleIntBy (noteTicks note) ppqScaleFactor))"

fun importPoints ::
  "RawControlChange list \<Rightarrow> int \<Rightarrow> real \<Rightarrow> (int \<times> real) list \<Rightarrow> (int \<times> real) list" where
  "importPoints [] insertOffset ppqScaleFactor points = points"
| "importPoints (cc # rest) insertOffset ppqScaleFactor points =
     importPoints rest insertOffset ppqScaleFactor
       (addPoint (insertOffset + scaleIntBy (ccTicks cc) ppqScaleFactor) (ccValue cc) points)"

definition importTrackContent :: "RawTrack \<Rightarrow> int \<Rightarrow> real \<Rightarrow> Track \<Rightarrow> Track" where
  "importTrackContent track insertOffset ppqScaleFactor songTrack =
     (let (trackClip, minStartTick) =
            importNotes (rawNotes track) insertOffset ppqScaleFactor
              (\<lparr>clipStartTick = insertOffset, clipNotes = []\<rparr>, MAX_SAFE_INTEGER);
          volume = (case controlChanges7 track of
                      None \<Rightarrow> volumeAutomation songTrack
                    | Some ccs \<Rightarrow> Some (importPoints ccs insertOffset ppqScaleFactor []));
          pan = (case controlChanges10 track of
                   None \<Rightarrow> panAutomation songTrack
                 | Some ccs \<Rightarrow> Some (importPoints ccs insertOffset ppqScaleFactor []));
          trackClip1 = (if minStartTick \<noteq> MAX_SAFE_INTEGER
                        then adjustClipLeft minStartTick trackClip else trackClip)
      in songTrack\<lparr>instrument := Some (instrumentNumber track, instrumentPercussion track),
                   clips := clips songTrack @ [trackClip1],
                   volumeAutomation := volume,
                   panAutomation := pan\<rparr>)"

text \<open>
  The loop over the tracks of the file: \<open>createTrack\<close> appends the new track to the song,
  and the content is written into that track.
\<close>

fun importTracks ::
  "RawTrack list \<Rightarrow> int \<Rightarrow> real \<Rightarrow> World \<Rightarrow> Song \<Rightarrow> (error + unit) \<times> World \<times> Song" where
  "importTracks [] insertOffset ppqScaleFactor w s = (Inr (), w, s)"
| "importTracks (track # rest) insertOffset ppqScaleFactor w s =
     (case createTrack MIDI_TRACK None None w s of
        (Inl e, w1, s1) \<Rightarrow> (Inl e, w1, s1)
      | (Inr songTrack, w1, s1) \<Rightarrow>
          importTracks rest insertOffset ppqScaleFactor w1
            (s1\<lparr>tracks := butlast (tracks s1)
                           @ [importTrackContent track insertOffset ppqScaleFactor songTrack]\<rparr>))"

definition importedTimeSignatures ::
  "RawTimeSignature list \<Rightarrow> int \<Rightarrow> real \<Rightarrow> TimeSignatureEvent list" where
  "importedTimeSignatures raws insertOffset ppqScaleFactor =
     map (\<lambda>rawTimeSignatureEvent.
            \<lparr>tsTicks = insertOffset + scaleIntBy (rawTsTicks rawTimeSignatureEvent) ppqScaleFactor,
             numerator = rawTsNumerator rawTimeSignatureEvent,
             denominator = rawTsDenominator rawTimeSignatureEvent\<rparr>) raws"

definition importedTempos :: "RawTempo list \<Rightarrow> int \<Rightarrow> real \<Rightarrow> TempoEvent list" where
  "importedTempos raws insertOffset ppqScaleFactor =
     (if insertOffset > 0 then [\<lparr>ticks = 0, bpm = 120, time = 0\<rparr>] else [])
     @ map (\<lambda>rawTempoEvent.
              \<lparr>ticks = insertOffset + scaleIntBy (rawTempoTicks rawTempoEvent) ppqScaleFactor,
               bpm = rawTempoBpm rawTempoEvent,
               time = rawTempoTime rawTempoEvent\<rparr>) raws"

text \<open>
  \<open>importMIDI\<close> takes the decoded file. The scale factor is \<open>480 / ppq\<close> of the file, whatever
  the resolution of the song.
\<close>

definition importMIDI ::
  "Midi \<Rightarrow> int \<Rightarrow> bool \<Rightarrow> World \<Rightarrow> Song \<Rightarrow> (error + unit) \<times> World \<times> Song" where
  "importMIDI midi insertAtTick overwriteTemposAndTimeSignatures w s =
     (let insertOffset = insertAtTick;
          ppqScaleFactor = 480 / real_of_int (headerPpq midi)
      in if overwriteTemposAndTimeSignatures
         then
           (case overwriteTempoChanges
                   (importedTempos (headerTempos midi) insertOffset ppqScaleFactor)
                   (overwriteTimeSignatures
                      (importedTimeSignatures (headerTimeSignatures midi)
                         insertOffset ppqScaleFactor) s) of
              (Inl e, s1) \<Rightarrow> (Inl e, w, s1)
            | (Inr u, s1) \<Rightarrow> importTracks (midiTracks midi) insertOffset ppqScaleFactor w s1)
         else importTracks (midiTracks midi) insertOffset ppqScaleFactor w s)"


section \<open>The integration of tempo segments, the invariant, imported tracks\<close>

text \<open>
  The length in seconds of the tempo segment from event \<open>e\<close> to event \<open>e'\<close>, and the
  cumulative integration of the segments before the \<open>k\<close>-th event of a tempo sequence.
\<close>

definition segmentSeconds :: "int \<Rightarrow> TempoEvent \<Rightarrow> TempoEvent \<Rightarrow> real" where
  "segmentSeconds ppq e e' =
     real_of_int (ticks e' - ticks e) / tempoBPMToTicksPerSecond (bpm e) ppq"

fun integratedTime :: "int \<Rightarrow> TempoEvent list \<Rightarrow> nat \<Rightarrow> real" where
  "integratedTime ppq es 0 = 0"
| "integratedTime ppq es (Suc k) =
     integratedTime ppq es k + segmentSeconds ppq (es ! k) (es ! Suc k)"

definition retimed :: "int \<Rightarrow> TempoEvent list \<Rightarrow> TempoEvent list" where
  "retimed ppq es = map (\<lambda>k. (es ! k)\<lparr>time := integratedTime ppq es k\<rparr>) [0..<length es]"

text \<open>
  The invariant of the tempo sequence: it starts at tick 0 when it is not empty, it is
  sorted by tick (equal ticks allowed), every tempo is positive, and every stored time
  is the integration of the segments before the event.
\<close>

definition tempoInvariant :: "Song \<Rightarrow> bool" where
  "tempoInvariant s =
     ((case tempos s of [] \<Rightarrow> True | e # es \<Rightarrow> ticks e = 0)
      \<and> sorted (map ticks (tempos s))
      \<and> list_all (\<lambda>e. 0 < bpm e) (tempos s)
      \<and> map time (tempos s) = map (integratedTime (PPQ s) (tempos s)) [0..<length (tempos s)])"

text \<open>The number of leading items of a list whose key is below \<open>y\<close>.\<close>

definition below :: "('a \<Rightarrow> 'k::linorder) \<Rightarrow> 'k \<Rightarrow> 'a list \<Rightarrow> nat" where
  "below key y a = length (takeWhile (\<lambda>x. key x < y) a)"


section \<open>The bounds on sorted lists\<close>

lemma bs_ge_correct:
  assumes part: "\<And>k. 0 \<le> k \<Longrightarrow> k < int (length a) \<Longrightarrow> (c (a ! nat k) < 0) = (k < n)"
  shows "0 \<le> l \<Longrightarrow> l \<le> n \<Longrightarrow> n \<le> h + 1 \<Longrightarrow> h < int (length a) \<Longrightarrow> i = h + 1
         \<Longrightarrow> bs_ge a c l h i = n"
  using part
proof (induction a c l h i rule: bs_ge.induct)
  case (1 a c l h i)
  show ?case
  proof (cases "l \<le> h")
    case False
    with "1.prems" show ?thesis by (subst bs_ge.simps) auto
  next
    case True
    let ?m = "(l + h) div 2"
    have m: "l \<le> ?m" "?m \<le> h" using True by auto
    have inr: "0 \<le> ?m" "?m < int (length a)" using m "1.prems" by auto
    have key: "(c (a ! nat ?m) < 0) = (?m < n)" using "1.prems"(6)[OF inr] .
    show ?thesis
    proof (cases "c (a ! nat ?m) \<ge> 0")
      case ge: True
      then have "\<not> ?m < n" using key by auto
      then have n: "n \<le> ?m - 1 + 1" by simp
      have "bs_ge a c l (?m - 1) ?m = n"
        using "1.IH"(1)[OF True ge "1.prems"(1,2) n] m "1.prems"(4,6) by auto
      with True ge show ?thesis by (subst bs_ge.simps) simp
    next
      case lt: False
      then have n: "?m + 1 \<le> n" using key by auto
      have "bs_ge a c (?m + 1) h i = n"
        using "1.IH"(2)[OF True lt _ n "1.prems"(3,4,5,6)] inr by auto
      with True lt show ?thesis by (subst bs_ge.simps) simp
    qed
  qed
qed

lemma bs_lt_correct:
  assumes part: "\<And>k. 0 \<le> k \<Longrightarrow> k < int (length a) \<Longrightarrow> (c (a ! nat k) < 0) = (k < n)"
  shows "0 \<le> l \<Longrightarrow> l \<le> n \<Longrightarrow> n \<le> h + 1 \<Longrightarrow> h < int (length a) \<Longrightarrow> i = l - 1
         \<Longrightarrow> bs_lt a c l h i = n - 1"
  using part
proof (induction a c l h i rule: bs_lt.induct)
  case (1 a c l h i)
  show ?case
  proof (cases "l \<le> h")
    case False
    with "1.prems" show ?thesis by (subst bs_lt.simps) auto
  next
    case True
    let ?m = "(l + h) div 2"
    have m: "l \<le> ?m" "?m \<le> h" using True by auto
    have inr: "0 \<le> ?m" "?m < int (length a)" using m "1.prems" by auto
    have key: "(c (a ! nat ?m) < 0) = (?m < n)" using "1.prems"(6)[OF inr] .
    show ?thesis
    proof (cases "c (a ! nat ?m) < 0")
      case lt: True
      then have n: "?m + 1 \<le> n" using key by auto
      have "bs_lt a c (?m + 1) h ?m = n - 1"
        using "1.IH"(1)[OF True lt _ n "1.prems"(3,4) _ "1.prems"(6)] inr by auto
      with True lt show ?thesis by (subst bs_lt.simps) simp
    next
      case ge: False
      then have "\<not> ?m < n" using key by auto
      then have n: "n \<le> ?m - 1 + 1" by simp
      have "bs_lt a c l (?m - 1) i = n - 1"
        using "1.IH"(2)[OF True ge "1.prems"(1,2) n _ "1.prems"(5,6)] m "1.prems"(4) by auto
      with True ge show ?thesis by (subst bs_lt.simps) simp
    qed
  qed
qed

lemma below_nth:
  "sorted (map key a) \<Longrightarrow> k < length a \<Longrightarrow> (key (a ! k) < y) = (k < below key y a)"
proof (induction a arbitrary: k)
  case Nil then show ?case by simp
next
  case (Cons x a)
  show ?case
  proof (cases k)
    case 0 then show ?thesis by (simp add: below_def)
  next
    case (Suc j)
    have le: "key x \<le> key (a ! j)" using Cons.prems Suc by auto
    have "(key (a ! j) < y) = (j < below key y a)" using Cons Suc by auto
    then show ?thesis using Suc le by (auto simp: below_def)
  qed
qed

lemma below_le: "below key y a \<le> length a"
  by (simp add: below_def length_takeWhile_le)

lemma greaterEqual_sorted:
  assumes "sorted (map key a)" and c: "\<And>x. (c x y < 0) = (key x < ky)"
  shows "greaterEqual a y c = int (below key ky a)"
  unfolding greaterEqual_def
proof (rule bs_ge_correct)
  fix k :: int assume "0 \<le> k" "k < int (length a)"
  then show "(c (a ! nat k) y < 0) = (k < int (below key ky a))"
    using below_nth[OF assms(1), of "nat k" ky] c by auto
qed (use below_le[of key ky a] in auto)

lemma lowerThan_sorted:
  assumes "sorted (map key a)" and c: "\<And>x. (c x y < 0) = (key x < ky)"
  shows "lowerThan a y c = int (below key ky a) - 1"
  unfolding lowerThan_def
proof (rule bs_lt_correct)
  fix k :: int assume "0 \<le> k" "k < int (length a)"
  then show "(c (a ! nat k) y < 0) = (k < int (below key ky a))"
    using below_nth[OF assms(1), of "nat k" ky] c by auto
qed (use below_le[of key ky a] in auto)

section \<open>Conversion and retiming on a sorted tempo sequence\<close>

lemma bs_lt_range:
  "bs_lt a c l h i = i \<or> (l \<le> bs_lt a c l h i \<and> bs_lt a c l h i \<le> h)"
proof (induction a c l h i rule: bs_lt.induct)
  case (1 a c l h i)
  show ?case
  proof (cases "l \<le> h")
    case False
    then show ?thesis by (subst bs_lt.simps) simp
  next
    case True
    let ?m = "(l + h) div 2"
    have m: "l \<le> ?m" "?m \<le> h" using True by auto
    show ?thesis
    proof (cases "c (a ! nat ?m) < 0")
      case lt: True
      have eq: "bs_lt a c l h i = bs_lt a c (?m + 1) h ?m"
        using True lt by (subst bs_lt.simps) simp
      show ?thesis using "1.IH"(1)[OF True lt] m unfolding eq by auto
    next
      case ge: False
      have eq: "bs_lt a c l h i = bs_lt a c l (?m - 1) i"
        using True ge by (subst bs_lt.simps) simp
      show ?thesis using "1.IH"(2)[OF True ge] m unfolding eq by auto
    qed
  qed
qed

lemma lowerThan_range: "- 1 \<le> lowerThan a y c \<and> lowerThan a y c < int (length a)"
  using bs_lt_range[of a "\<lambda>x. c x y" 0 "int (length a) - 1" "- 1"]
  unfolding lowerThan_def by auto

lemma tickToSecondsImpl_total:
  "es \<noteq> [] \<Longrightarrow> \<exists>v. tickToSecondsImpl tick es r = Inr v"
proof -
  have r: "- 1 \<le> lowerThan es tick (\<lambda>a b. ticks a - b)"
    "lowerThan es tick (\<lambda>a b. ticks a - b) < int (length es)"
    using lowerThan_range[of es tick "\<lambda>a b. ticks a - b"] by auto
  assume ne: "es \<noteq> []"
  define f where "f = lowerThan es tick (\<lambda>a b. ticks a - b)"
  have "0 \<le> (if f = - 1 then 0 else f) \<and> nat (if f = - 1 then 0 else f) < length es"
    using r ne unfolding f_def[symmetric] by auto
  then show ?thesis
    unfolding tickToSecondsImpl_def Let_def f_def[symmetric] by simp
qed

lemma tickToSecondsImpl_zero: "tickToSecondsImpl 0 es r = Inr 0"
  by (simp add: tickToSecondsImpl_def)

lemma tickToSecondsImpl_sorted:
  assumes "sorted (map ticks es)" "es \<noteq> []" "tick \<noteq> 0"
  shows "tickToSecondsImpl tick es r =
           Inr (time (es ! (below ticks tick es - 1))
                + real_of_int (tick - ticks (es ! (below ticks tick es - 1)))
                  / tempoBPMToTicksPerSecond (bpm (es ! (below ticks tick es - 1))) r)"
proof -
  define f where "f = lowerThan es tick (\<lambda>a b. ticks a - b)"
  define n where "n = below ticks tick es"
  have lt: "f = int n - 1"
    unfolding f_def n_def by (rule lowerThan_sorted[OF assms(1), where ky = tick]) simp
  have le: "n \<le> length es" unfolding n_def by (rule below_le)
  have len: "0 < length es" using assms(2) by simp
  define j where "j = (if f = - 1 then 0 else f)"
  have j: "0 \<le> j" "nat j < length es" "nat j = n - 1"
    using lt le len unfolding j_def by auto
  show ?thesis
    unfolding tickToSecondsImpl_def Let_def f_def[symmetric] j_def[symmetric]
      n_def[symmetric]
    using j assms(3) by simp
qed

lemma retimingLoop_total:
  "tempos s \<noteq> [] \<Longrightarrow>
   \<exists>s'. retimingLoop js s = (Inr (), s') \<and> length (tempos s') = length (tempos s)
        \<and> PPQ s' = PPQ s \<and> tracks s' = tracks s \<and> pluginContext s' = pluginContext s"
proof (induction js arbitrary: s)
  case Nil
  then show ?case by simp
next
  case (Cons i js)
  obtain v where v: "tickToSeconds s (ticks (tempos s ! i)) = Inr v"
    using tickToSecondsImpl_total[OF Cons.prems] unfolding tickToSeconds_def by blast
  let ?s1 = "s\<lparr>tempos := (tempos s)[i := (tempos s ! i)\<lparr>time := v\<rparr>]\<rparr>"
  have "tempos ?s1 \<noteq> []" using Cons.prems by simp
  from Cons.IH[OF this] show ?case using v by simp
qed

lemma retimingTempoEvents_total:
  assumes "tempos s \<noteq> []"
  shows "\<exists>s'. retimingTempoEvents s = (Inr (), s') \<and> length (tempos s') = length (tempos s)"
proof -
  let ?s1 = "s\<lparr>tempos := sort_key ticks (tempos s)\<rparr>"
  have "length (tempos ?s1) = length (tempos s)" by simp
  then have "tempos ?s1 \<noteq> []" using assms by (metis length_0_conv)
  from retimingLoop_total[OF this, of "[0..<length (tempos ?s1)]"]
  show ?thesis unfolding retimingTempoEvents_def Let_def by auto
qed

lemma splice_insert_length: "length (splice_insert xs k x) = Suc (length xs)"
  by (auto simp: splice_insert_def Let_def)

lemma below_single: "below key y [e] - Suc 0 = 0"
  by (simp add: below_def)


lemma integratedTime_cong:
  "(\<And>j. j \<le> k \<Longrightarrow> ticks (es ! j) = ticks (es' ! j) \<and> bpm (es ! j) = bpm (es' ! j))
   \<Longrightarrow> integratedTime ppq es k = integratedTime ppq es' k"
  by (induction k) (simp_all add: segmentSeconds_def)

lemma integratedTime_flat:
  "n \<le> k \<Longrightarrow> (\<And>j. n \<le> j \<Longrightarrow> j < k \<Longrightarrow> ticks (es ! Suc j) = ticks (es ! j))
   \<Longrightarrow> integratedTime ppq es k = integratedTime ppq es n"
proof (induction k)
  case 0
  then show ?case by simp
next
  case (Suc k)
  show ?case
  proof (cases "n = Suc k")
    case True
    then show ?thesis by simp
  next
    case False
    with Suc.prems have nk: "n \<le> k" by simp
    have "integratedTime ppq es k = integratedTime ppq es n"
      using Suc.IH[OF nk] Suc.prems(2) by simp
    moreover have "ticks (es ! Suc k) = ticks (es ! k)" using Suc.prems(2)[OF nk] by simp
    ultimately show ?thesis by (simp add: segmentSeconds_def)
  qed
qed

lemma sorted_ticks_nth:
  "sorted (map ticks es) \<Longrightarrow> i \<le> j \<Longrightarrow> j < length es \<Longrightarrow> ticks (es ! i) \<le> ticks (es ! j)"
  using sorted_nth_mono[of "map ticks es" i j] by simp

lemma tickToSecondsImpl_integrated:
  assumes srt: "sorted (map ticks es)" and ne: "es \<noteq> []" and z: "ticks (es ! 0) = 0"
    and k: "k < length es"
    and got: "\<And>j. j < k \<Longrightarrow> time (es ! j) = integratedTime ppq es j"
  shows "tickToSecondsImpl (ticks (es ! k)) es ppq = Inr (integratedTime ppq es k)"
proof (cases "ticks (es ! k) = 0")
  case True
  have "\<And>j. j \<le> k \<Longrightarrow> ticks (es ! j) = 0"
  proof -
    fix j assume j: "j \<le> k"
    have "ticks (es ! 0) \<le> ticks (es ! j)" using sorted_ticks_nth[OF srt, of 0 j] j k by simp
    moreover have "ticks (es ! j) \<le> ticks (es ! k)" using sorted_ticks_nth[OF srt j k] .
    ultimately show "ticks (es ! j) = 0" using z True by simp
  qed
  then have "integratedTime ppq es k = integratedTime ppq es 0"
    by (intro integratedTime_flat) simp_all
  then show ?thesis using True by (simp add: tickToSecondsImpl_zero)
next
  case False
  define tk where "tk = ticks (es ! k)"
  define n where "n = below ticks tk es"
  have part: "\<And>j. j < length es \<Longrightarrow> (ticks (es ! j) < tk) = (j < n)"
    unfolding n_def by (rule below_nth[OF srt])
  have "0 \<le> tk" using sorted_ticks_nth[OF srt, of 0 k] k z unfolding tk_def by simp
  then have pos: "0 < tk" using False unfolding tk_def by simp
  have n1: "0 < n" using part[of 0] ne z pos by simp
  have nk: "n \<le> k" using part[OF k] unfolding tk_def by simp
  have eq: "\<And>j. n \<le> j \<Longrightarrow> j \<le> k \<Longrightarrow> ticks (es ! j) = tk"
  proof -
    fix j assume j: "n \<le> j" "j \<le> k"
    then have "\<not> ticks (es ! j) < tk" using part[of j] k by simp
    moreover have "ticks (es ! j) \<le> tk"
      using sorted_ticks_nth[OF srt j(2) k] unfolding tk_def .
    ultimately show "ticks (es ! j) = tk" by simp
  qed
  obtain b where b: "n = Suc b" using n1 by (cases n) auto
  have bk: "b < k" using b nk by simp
  have flat: "integratedTime ppq es k = integratedTime ppq es n"
    by (rule integratedTime_flat[OF nk]) (simp add: eq)
  have "integratedTime ppq es n
        = time (es ! b) + real_of_int (tk - ticks (es ! b))
                          / tempoBPMToTicksPerSecond (bpm (es ! b)) ppq"
    using got[OF bk] eq[of n] nk unfolding b by (simp add: segmentSeconds_def b)
  moreover have "tickToSecondsImpl tk es ppq
        = Inr (time (es ! b) + real_of_int (tk - ticks (es ! b))
                          / tempoBPMToTicksPerSecond (bpm (es ! b)) ppq)"
    using tickToSecondsImpl_sorted[OF srt ne, of tk ppq] pos b
    unfolding n_def[symmetric] by simp
  ultimately show ?thesis using flat unfolding tk_def by simp
qed

lemma retimed_length: "length (retimed ppq es) = length es"
  by (simp add: retimed_def)

lemma retimed_nth:
  "k < length es \<Longrightarrow> retimed ppq es ! k = (es ! k)\<lparr>time := integratedTime ppq es k\<rparr>"
  by (simp add: retimed_def)

lemma retimed_ticks: "map ticks (retimed ppq es) = map ticks es"
  by (rule nth_equalityI) (simp_all add: retimed_length retimed_nth)

lemma retimed_bpm: "map bpm (retimed ppq es) = map bpm es"
  by (rule nth_equalityI) (simp_all add: retimed_length retimed_nth)

lemma retimingLoop_spec:
  assumes "sorted (map ticks (tempos s))" and "tempos s \<noteq> []"
    and "ticks (tempos s ! 0) = 0" and "k \<le> length (tempos s)"
    and "\<And>j. j < k \<Longrightarrow> time (tempos s ! j) = integratedTime (PPQ s) (tempos s) j"
  shows "retimingLoop [k..<length (tempos s)] s
         = (Inr (), s\<lparr>tempos := retimed (PPQ s) (tempos s)\<rparr>)"
  using assms
proof (induction "length (tempos s) - k" arbitrary: s k)
  case 0
  then have k: "k = length (tempos s)" by simp
  have "retimed (PPQ s) (tempos s) = tempos s"
    by (rule nth_equalityI) (simp_all add: retimed_length retimed_nth "0.prems"(5) k)
  then show ?case using k by simp
next
  case (Suc m)
  let ?es = "tempos s"
  have k: "k < length ?es" using Suc.hyps(2) by simp
  have v: "tickToSeconds s (ticks (?es ! k)) = Inr (integratedTime (PPQ s) ?es k)"
    unfolding tickToSeconds_def
    by (rule tickToSecondsImpl_integrated[OF Suc.prems(1,2,3) k Suc.prems(5)])
  define es1 where "es1 = ?es[k := (?es ! k)\<lparr>time := integratedTime (PPQ s) ?es k\<rparr>]"
  define s1 where "s1 = s\<lparr>tempos := es1\<rparr>"
  have len: "length es1 = length ?es" unfolding es1_def by simp
  have tk1: "\<And>j. ticks (es1 ! j) = ticks (?es ! j)"
    unfolding es1_def by (metis (no_types, lifting) TempoEvent.select_convs(1) TempoEvent.surjective TempoEvent.update_convs(3) k nth_list_update_eq nth_list_update_neq)
  have bp1: "\<And>j. bpm (es1 ! j) = bpm (?es ! j)"
    unfolding es1_def by (metis (no_types, lifting) TempoEvent.select_convs(2) TempoEvent.surjective TempoEvent.update_convs(3) k nth_list_update_eq nth_list_update_neq)
  have int1: "\<And>j. integratedTime (PPQ s) es1 j = integratedTime (PPQ s) ?es j"
    by (rule integratedTime_cong) (simp add: tk1 bp1)
  have m1: "map ticks es1 = map ticks ?es"
    by (rule nth_equalityI) (simp_all add: len tk1)
  have step: "retimingLoop [k..<length ?es] s = retimingLoop [Suc k..<length es1] s1"
    using k v by (simp add: upt_conv_Cons s1_def es1_def)
  have p1: "sorted (map ticks (tempos s1))" using Suc.prems(1) m1 by (simp add: s1_def)
  have p2: "tempos s1 \<noteq> []" using Suc.prems(2) len by (auto simp: s1_def)
  have p3: "ticks (tempos s1 ! 0) = 0" using Suc.prems(3) tk1 by (simp add: s1_def)
  have p4: "Suc k \<le> length (tempos s1)" using k len by (simp add: s1_def)
  have p5: "\<And>j. j < Suc k \<Longrightarrow> time (tempos s1 ! j) = integratedTime (PPQ s1) (tempos s1) j"
  proof -
    fix j assume "j < Suc k"
    then consider "j < k" | "j = k" by linarith
    then show "time (tempos s1 ! j) = integratedTime (PPQ s1) (tempos s1) j"
    proof cases
      case 1
      then show ?thesis using Suc.prems(5)[OF 1] int1 by (simp add: s1_def es1_def)
    next
      case 2
      then show ?thesis using k int1 by (simp add: s1_def es1_def)
    qed
  qed
  have m: "m = length (tempos s1) - Suc k" using Suc.hyps(2) len by (simp add: s1_def)
  have "retimingLoop [Suc k..<length (tempos s1)] s1
        = (Inr (), s1\<lparr>tempos := retimed (PPQ s1) (tempos s1)\<rparr>)"
    by (rule Suc.hyps(1)[OF m p1 p2 p3 p4 p5])
  moreover have "retimed (PPQ s) es1 = retimed (PPQ s) ?es"
  proof (rule nth_equalityI)
    show "length (retimed (PPQ s) es1) = length (retimed (PPQ s) ?es)"
      by (simp add: retimed_length len)
    fix j assume "j < length (retimed (PPQ s) es1)"
    then have j: "j < length ?es" by (simp add: retimed_length len)
    show "retimed (PPQ s) es1 ! j = retimed (PPQ s) ?es ! j"
      using j len int1 by (cases "j = k") (simp_all add: retimed_nth es1_def)
  qed
  ultimately show ?case unfolding step by (simp add: s1_def)
qed

lemma retimingTempoEvents_spec:
  assumes "sorted (map ticks (tempos s))" and "tempos s \<noteq> []" and "ticks (tempos s ! 0) = 0"
  shows "retimingTempoEvents s = (Inr (), s\<lparr>tempos := retimed (PPQ s) (tempos s)\<rparr>)"
proof -
  have id: "sort_key ticks (tempos s) = tempos s"
    by (rule sort_key_id_if_sorted[OF assms(1)])
  have "s\<lparr>tempos := tempos s\<rparr> = s" by simp
  then show ?thesis
    using retimingLoop_spec[OF assms, of 0]
    unfolding retimingTempoEvents_def Let_def id by simp
qed

section \<open>Inserting a tempo change\<close>

lemma update_time_ticks:
  "map ticks (es[i := (es ! i)\<lparr>time := v\<rparr>]) = map ticks es"
  by (cases "i < length es") (auto simp: nth_list_update intro!: nth_equalityI)

lemma update_time_bpm:
  "map bpm (es[i := (es ! i)\<lparr>time := v\<rparr>]) = map bpm es"
  by (cases "i < length es") (auto simp: nth_list_update intro!: nth_equalityI)

lemma retimingLoop_shape:
  "tempos s \<noteq> [] \<Longrightarrow>
   \<exists>es'. retimingLoop js s = (Inr (), s\<lparr>tempos := es'\<rparr>)
         \<and> map ticks es' = map ticks (tempos s) \<and> map bpm es' = map bpm (tempos s)"
proof (induction js arbitrary: s)
  case Nil
  have "s = s\<lparr>tempos := tempos s\<rparr>" by simp
  then show ?case by (metis retimingLoop.simps(1))
next
  case (Cons i js)
  obtain v where v: "tickToSeconds s (ticks (tempos s ! i)) = Inr v"
    using tickToSecondsImpl_total[OF Cons.prems] unfolding tickToSeconds_def by blast
  define s1 where "s1 = s\<lparr>tempos := (tempos s)[i := (tempos s ! i)\<lparr>time := v\<rparr>]\<rparr>"
  have ne: "tempos s1 \<noteq> []" using Cons.prems by (simp add: s1_def)
  from Cons.IH[OF ne] obtain es' where
    es': "retimingLoop js s1 = (Inr (), s1\<lparr>tempos := es'\<rparr>)"
      "map ticks es' = map ticks (tempos s1)" "map bpm es' = map bpm (tempos s1)" by blast
  have "retimingLoop (i # js) s = (Inr (), s\<lparr>tempos := es'\<rparr>)"
    using v es'(1) by (simp add: s1_def)
  moreover have "map ticks es' = map ticks (tempos s)"
    using es'(2) by (simp add: s1_def update_time_ticks)
  moreover have "map bpm es' = map bpm (tempos s)"
    using es'(3) by (simp add: s1_def update_time_bpm)
  ultimately show ?case by blast
qed

lemma retimingTempoEvents_shape:
  assumes "sorted (map ticks (tempos s))" and "tempos s \<noteq> []"
  shows "\<exists>es'. retimingTempoEvents s = (Inr (), s\<lparr>tempos := es'\<rparr>)
         \<and> map ticks es' = map ticks (tempos s) \<and> map bpm es' = map bpm (tempos s)"
proof -
  have id: "sort_key ticks (tempos s) = tempos s"
    by (rule sort_key_id_if_sorted[OF assms(1)])
  have "s\<lparr>tempos := tempos s\<rparr> = s" by simp
  then show ?thesis
    using retimingLoop_shape[OF assms(2), of "[0..<length (tempos s)]"]
    unfolding retimingTempoEvents_def Let_def id by simp
qed

lemma below_take: "take (below key y a) a = takeWhile (\<lambda>x. key x < y) a"
  unfolding below_def by (rule takeWhile_eq_take[symmetric])

lemma below_drop: "drop (below key y a) a = dropWhile (\<lambda>x. key x < y) a"
  unfolding below_def by (rule dropWhile_eq_drop[symmetric])

lemma below_before: "x \<in> set (take (below key y a) a) \<Longrightarrow> key x < y"
  unfolding below_take by (rule set_takeWhileD[THEN conjunct2])

lemma below_after:
  assumes "sorted (map key a)" and "x \<in> set (drop (below key y a) a)"
  shows "y \<le> key x"
proof -
  obtain j where j: "j < length (drop (below key y a) a)" "x = drop (below key y a) a ! j"
    using assms(2) by (metis in_set_conv_nth)
  then have lt: "below key y a + j < length a" by simp
  have "x = a ! (below key y a + j)" using j lt by simp
  then show ?thesis using below_nth[OF assms(1) lt, of y] by simp
qed

lemma insert_below_sorted:
  assumes "sorted (map key a)" and "key x = y"
  shows "sorted (map key (take (below key y a) a @ x # drop (below key y a) a))"
proof -
  let ?n = "below key y a"
  have s1: "sorted (map key (take ?n a))" using assms(1) by (simp add: sorted_wrt_take take_map[symmetric])
  have s2: "sorted (map key (drop ?n a))" using assms(1) by (simp add: sorted_wrt_drop drop_map[symmetric])
  have b: "\<And>u. u \<in> set (take ?n a) \<Longrightarrow> key u < y" by (rule below_before)
  have c: "\<And>u. u \<in> set (drop ?n a) \<Longrightarrow> y \<le> key u" by (rule below_after[OF assms(1)])
  show ?thesis
    using s1 s2 b c assms(2) by (fastforce simp: sorted_append)
qed

lemma splice_insert_below:
  "splice_insert a (int (below key y a)) x = take (below key y a) a @ x # drop (below key y a) a"
  using below_le[of key y a] by (simp add: splice_insert_def Let_def min_def)

lemma greaterEqual_ticks:
  assumes "sorted (map ticks es)"
  shows "greaterEqual es tc (\<lambda>a b. ticks a - ticks b) = int (below ticks (ticks tc) es)"
  by (rule greaterEqual_sorted[OF assms]) simp

lemma createTempoChange_unfold:
  assumes "0 < PPQ s" and "sorted (map ticks (tempos s))" and "tempos s \<noteq> [] \<or> tk = 0"
    and "tickToSeconds s tk = Inr tm"
    and "retimingTempoEvents
           (s\<lparr>tempos := take (below ticks tk (tempos s)) (tempos s)
                         @ \<lparr>ticks = tk, bpm = b, time = tm\<rparr>
                         # drop (below ticks tk (tempos s)) (tempos s)\<rparr>) = (Inr (), s2)"
  shows "createTempoChange tk b s = (Inr \<lparr>ticks = tk, bpm = b, time = tm\<rparr>, s2)"
proof -
  let ?tc = "\<lparr>ticks = tk, bpm = b, time = tm\<rparr>"
  have ge: "greaterEqual (tempos s) ?tc (\<lambda>a b. ticks a - ticks b)
            = int (below ticks tk (tempos s))"
    using greaterEqual_ticks[OF assms(2), of ?tc] by simp
  show ?thesis
    using assms(1,3,4,5)
    by (auto simp: createTempoChange_def Let_def ge splice_insert_below)
qed

lemma tickToSeconds_total:
  "tempos s \<noteq> [] \<or> tk = 0 \<Longrightarrow> \<exists>tm. tickToSeconds s tk = Inr tm"
  using tickToSecondsImpl_total[of "tempos s" tk "PPQ s"] tickToSecondsImpl_zero
  by (auto simp: tickToSeconds_def)

lemma createTempoChange_shape:
  assumes "0 < PPQ s" and "sorted (map ticks (tempos s))" and "tempos s \<noteq> [] \<or> tk = 0"
  shows "\<exists>tm es'. createTempoChange tk b s
                   = (Inr \<lparr>ticks = tk, bpm = b, time = tm\<rparr>, s\<lparr>tempos := es'\<rparr>)
          \<and> map ticks es' = map ticks (take (below ticks tk (tempos s)) (tempos s)) @ tk
                              # map ticks (drop (below ticks tk (tempos s)) (tempos s))
          \<and> map bpm es' = map bpm (take (below ticks tk (tempos s)) (tempos s)) @ b
                              # map bpm (drop (below ticks tk (tempos s)) (tempos s))"
proof -
  obtain tm where tm: "tickToSeconds s tk = Inr tm"
    using tickToSeconds_total[OF assms(3)] by blast
  let ?n = "below ticks tk (tempos s)"
  let ?tc = "\<lparr>ticks = tk, bpm = b, time = tm\<rparr>"
  let ?es1 = "take ?n (tempos s) @ ?tc # drop ?n (tempos s)"
  let ?s1 = "s\<lparr>tempos := ?es1\<rparr>"
  have srt: "sorted (map ticks (tempos ?s1))"
    using insert_below_sorted[OF assms(2), of ?tc tk] by simp
  have ne: "tempos ?s1 \<noteq> []" by simp
  from retimingTempoEvents_shape[OF srt ne] obtain es' where
    es': "retimingTempoEvents ?s1 = (Inr (), ?s1\<lparr>tempos := es'\<rparr>)"
      "map ticks es' = map ticks (tempos ?s1)" "map bpm es' = map bpm (tempos ?s1)" by blast
  have "createTempoChange tk b s = (Inr ?tc, ?s1\<lparr>tempos := es'\<rparr>)"
    by (rule createTempoChange_unfold[OF assms tm es'(1)])
  then have "createTempoChange tk b s = (Inr ?tc, s\<lparr>tempos := es'\<rparr>)" by simp
  then show ?thesis using es'(2,3) by auto
qed

lemma createTempoChange_retimed:
  assumes "0 < PPQ s" and "sorted (map ticks (tempos s))"
    and "case tempos s of [] \<Rightarrow> tk = 0 | e # es \<Rightarrow> ticks e = 0" and "0 \<le> tk"
  shows "\<exists>tm. createTempoChange tk b s
          = (Inr \<lparr>ticks = tk, bpm = b, time = tm\<rparr>,
             s\<lparr>tempos := retimed (PPQ s)
                  (take (below ticks tk (tempos s)) (tempos s)
                   @ \<lparr>ticks = tk, bpm = b, time = tm\<rparr>
                   # drop (below ticks tk (tempos s)) (tempos s))\<rparr>)"
proof -
  have a3: "tempos s \<noteq> [] \<or> tk = 0" using assms(3) by (cases "tempos s") auto
  obtain tm where tm: "tickToSeconds s tk = Inr tm"
    using tickToSeconds_total[OF a3] by blast
  let ?n = "below ticks tk (tempos s)"
  let ?tc = "\<lparr>ticks = tk, bpm = b, time = tm\<rparr>"
  let ?es1 = "take ?n (tempos s) @ ?tc # drop ?n (tempos s)"
  let ?s1 = "s\<lparr>tempos := ?es1\<rparr>"
  have srt: "sorted (map ticks (tempos ?s1))"
    using insert_below_sorted[OF assms(2), of ?tc tk] by simp
  have ne: "tempos ?s1 \<noteq> []" by simp
  have z: "ticks (tempos ?s1 ! 0) = 0"
  proof (cases "tempos s")
    case Nil
    then show ?thesis using assms(3) by (simp add: below_def)
  next
    case (Cons e es)
    then have e: "ticks e = 0" using assms(3) by simp
    show ?thesis
    proof (cases "0 < tk")
      case True
      then show ?thesis using Cons e by (simp add: below_def)
    next
      case False
      then have "tk = 0" using assms(4) by simp
      then show ?thesis using Cons e by (simp add: below_def)
    qed
  qed
  have "retimingTempoEvents ?s1 = (Inr (), ?s1\<lparr>tempos := retimed (PPQ ?s1) (tempos ?s1)\<rparr>)"
    by (rule retimingTempoEvents_spec[OF srt ne z])
  then have "retimingTempoEvents ?s1 = (Inr (), s\<lparr>tempos := retimed (PPQ s) ?es1\<rparr>)"
    by simp
  from createTempoChange_unfold[OF assms(1,2) a3 tm this] show ?thesis by blast
qed

section \<open>The head of the tempo sequence through an overwrite\<close>

lemma insert_below_head:
  assumes "case es of [] \<Rightarrow> tk = 0 | e # rest \<Rightarrow> ticks e = 0" and "0 \<le> tk"
    and "ticks tc = tk"
  shows "ticks ((take (below ticks tk es) es @ tc # drop (below ticks tk es) es) ! 0) = 0"
proof (cases es)
  case Nil
  then show ?thesis using assms by (simp add: below_def)
next
  case (Cons e rest)
  then have e: "ticks e = 0" using assms(1) by simp
  show ?thesis
  proof (cases "0 < tk")
    case True
    then show ?thesis using Cons e by (simp add: below_def)
  next
    case False
    then have "tk = 0" using assms(2) by simp
    then show ?thesis using Cons e assms(3) by (simp add: below_def)
  qed
qed

lemma insert_below_keeps_head:
  assumes "es = e # rest" and "ticks e < tk"
  shows "(take (below ticks tk es) es @ tc # drop (below ticks tk es) es) ! 0 = e"
  using assms by (simp add: below_def)

lemma insert_below_new_head:
  assumes "es = e # rest" and "\<not> ticks e < tk"
  shows "(take (below ticks tk es) es @ tc # drop (below ticks tk es) es) ! 0 = tc"
  using assms by (simp add: below_def)

text \<open>What one pass of the overwrite loop keeps true of the head of the tempo list.\<close>

lemma createTempoChange_head:
  assumes "sorted (map ticks (tempos s))" and "tempos s = e # es" and "ticks e = 0"
    and "0 \<le> tk"
  shows "\<exists>r e' es'. createTempoChange tk b s = (r, s\<lparr>tempos := e' # es'\<rparr>)
           \<and> sorted (map ticks (e' # es')) \<and> ticks e' = 0
           \<and> (time e = 0 \<longrightarrow> time e' = 0) \<and> (0 < tk \<longrightarrow> bpm e' = bpm e)
           \<and> (bpm e' = bpm e \<or> (tk = 0 \<and> bpm e' = b))
           \<and> (0 < PPQ s \<longrightarrow> (\<exists>ev. r = Inr ev))"
proof (cases "0 < PPQ s")
  case False
  then have "createTempoChange tk b s
             = (Inl (Error ''Song resolution must be provided before creating tempo changes.''),
                s\<lparr>tempos := e # es\<rparr>)"
    using assms(2) by (simp add: createTempoChange_def)
  then show ?thesis using assms False by fastforce
next
  case True
  have hd: "case tempos s of [] \<Rightarrow> tk = 0 | e # es \<Rightarrow> ticks e = 0" using assms(2,3) by simp
  from createTempoChange_retimed[OF True assms(1) hd assms(4), of b] obtain tm where
    r: "createTempoChange tk b s
        = (Inr \<lparr>ticks = tk, bpm = b, time = tm\<rparr>,
           s\<lparr>tempos := retimed (PPQ s)
                (take (below ticks tk (tempos s)) (tempos s)
                 @ \<lparr>ticks = tk, bpm = b, time = tm\<rparr>
                 # drop (below ticks tk (tempos s)) (tempos s))\<rparr>)" by blast
  let ?tc = "\<lparr>ticks = tk, bpm = b, time = tm\<rparr>"
  let ?es1 = "take (below ticks tk (tempos s)) (tempos s) @ ?tc
              # drop (below ticks tk (tempos s)) (tempos s)"
  let ?es2 = "retimed (PPQ s) ?es1"
  have len: "0 < length ?es1" by simp
  then have ne2: "?es2 \<noteq> []" by (metis retimed_length length_greater_0_conv)
  then obtain e' es' where c: "?es2 = e' # es'" by (cases ?es2) auto
  have e': "e' = (?es1 ! 0)\<lparr>time := integratedTime (PPQ s) ?es1 0\<rparr>"
    using retimed_nth[OF len, of "PPQ s"] c by simp
  have s: "sorted (map ticks (e' # es'))"
    using insert_below_sorted[OF assms(1), of ?tc tk] retimed_ticks[of "PPQ s" ?es1] c by simp
  have z: "ticks e' = 0" using insert_below_head[OF hd assms(4), of ?tc] e' by simp
  have t: "time e' = 0" using e' by simp
  have b: "0 < tk \<longrightarrow> bpm e' = bpm e"
    using insert_below_keeps_head[OF assms(2), of tk ?tc] assms(3) e' by simp
  have b2: "bpm e' = bpm e \<or> (tk = 0 \<and> bpm e' = b)"
  proof (cases "0 < tk")
    case True
    then show ?thesis using b by simp
  next
    case False
    then have "tk = 0" using assms(4) by simp
    moreover have "?es1 ! 0 = ?tc"
      using insert_below_new_head[OF assms(2), of tk ?tc] assms(3) \<open>tk = 0\<close> by simp
    ultimately show ?thesis using e' by simp
  qed
  have "createTempoChange tk b s = (Inr ?tc, s\<lparr>tempos := e' # es'\<rparr>)"
    using r c by simp
  then show ?thesis using s z t b b2 by blast
qed

lemma overwriteLoop_head:
  assumes "sorted (map ticks (tempos s))" and "tempos s = e # es" and "ticks e = 0"
    and "time e = 0" and "list_all (\<lambda>x. 0 \<le> ticks x) evs"
  shows "\<exists>r e' es'. overwriteLoop evs s = (r, s\<lparr>tempos := e' # es'\<rparr>)
           \<and> ticks e' = 0 \<and> time e' = 0
           \<and> (list_all (\<lambda>x. 0 < ticks x) evs \<longrightarrow> bpm e' = bpm e)
           \<and> (bpm e' = bpm e \<or> (\<exists>x\<in>set evs. ticks x = 0 \<and> bpm e' = bpm x))
           \<and> (0 < PPQ s \<longrightarrow> r = Inr ())"
  using assms
proof (induction evs arbitrary: s e es)
  case Nil
  have "s = s\<lparr>tempos := e # es\<rparr>" using Nil.prems(2) by simp
  then have "overwriteLoop [] s = (Inr (), s\<lparr>tempos := e # es\<rparr>)" by simp
  then show ?case using Nil.prems by blast
next
  case (Cons x evs)
  have x0: "0 \<le> ticks x" and rest: "list_all (\<lambda>x. 0 \<le> ticks x) evs"
    using Cons.prems(5) by simp_all
  from createTempoChange_head[OF Cons.prems(1,2,3) x0, of "bpm x"] obtain r e1 es1 where
    c: "createTempoChange (ticks x) (bpm x) s = (r, s\<lparr>tempos := e1 # es1\<rparr>)"
      "sorted (map ticks (e1 # es1))" "ticks e1 = 0" "time e1 = 0"
      "0 < ticks x \<longrightarrow> bpm e1 = bpm e"
      "bpm e1 = bpm e \<or> (ticks x = 0 \<and> bpm e1 = bpm x)"
      "0 < PPQ s \<longrightarrow> (\<exists>ev. r = Inr ev)"
    using Cons.prems(4) by blast
  show ?case
  proof (cases r)
    case (Inl err)
    then have "overwriteLoop (x # evs) s = (Inl err, s\<lparr>tempos := e1 # es1\<rparr>)"
      using c(1) by simp
    moreover have "\<not> 0 < PPQ s" using c(7) Inl by auto
    ultimately show ?thesis using c(3,4,5,6) by fastforce
  next
    case (Inr ev)
    let ?s1 = "s\<lparr>tempos := e1 # es1\<rparr>"
    have step: "overwriteLoop (x # evs) s = overwriteLoop evs ?s1" using c(1) Inr by simp
    have p1: "sorted (map ticks (tempos ?s1))" using c(2) by simp
    have p2: "tempos ?s1 = e1 # es1" by simp
    from Cons.IH[OF p1 p2 c(3) c(4) rest] obtain r' e' es' where
      i: "overwriteLoop evs ?s1 = (r', ?s1\<lparr>tempos := e' # es'\<rparr>)"
        "ticks e' = 0" "time e' = 0"
        "list_all (\<lambda>x. 0 < ticks x) evs \<longrightarrow> bpm e' = bpm e1"
        "bpm e' = bpm e1 \<or> (\<exists>x\<in>set evs. ticks x = 0 \<and> bpm e' = bpm x)"
        "0 < PPQ ?s1 \<longrightarrow> r' = Inr ()" by blast
    have res: "overwriteLoop (x # evs) s = (r', s\<lparr>tempos := e' # es'\<rparr>)"
      using step i(1) by simp
    have a: "list_all (\<lambda>x. 0 < ticks x) (x # evs) \<longrightarrow> bpm e' = bpm e"
      using i(4) c(5) by simp
    have b: "bpm e' = bpm e \<or> (\<exists>y\<in>set (x # evs). ticks y = 0 \<and> bpm e' = bpm y)"
      using i(5) c(6) by auto
    have s: "0 < PPQ s \<longrightarrow> r' = Inr ()" using i(6) by simp
    show ?thesis using res i(2,3) a b s by blast
  qed
qed

lemma overwriteTempoChanges_head:
  assumes "evs \<noteq> []" and "list_all (\<lambda>x. 0 \<le> ticks x) evs" and "x0 \<in> set evs"
    and "ticks x0 = 0"
  shows "\<exists>r e' es'. overwriteTempoChanges evs s = (r, s\<lparr>tempos := e' # es'\<rparr>)
           \<and> ticks e' = 0 \<and> time e' = 0
           \<and> (\<exists>x\<in>set evs. ticks x = 0 \<and> bpm e' = bpm x)
           \<and> (filter (\<lambda>x. ticks x = 0) evs = [x0] \<longrightarrow> bpm e' = bpm x0)
           \<and> (0 < PPQ s \<longrightarrow> r = Inr ())"
proof -
  have "sort_key ticks evs \<noteq> []" using assms(1) by (metis length_sort length_0_conv)
  then obtain f rest where fr: "sort_key ticks evs = f # rest"
    by (cases "sort_key ticks evs") auto
  have set: "set (f # rest) = set evs" using fr by (metis set_sort)
  have srt: "sorted (map ticks (f # rest))" using fr by (metis sorted_sort_key)
  have fin: "f \<in> set evs" using set by auto
  have all0: "\<And>x. x \<in> set evs \<Longrightarrow> 0 \<le> ticks x"
    using assms(2) by (simp add: list_all_iff)
  have "ticks f \<le> ticks x0" using srt assms(3) set by auto
  then have f0: "ticks f = 0" using all0[OF fin] assms(4) by simp
  have rest0: "list_all (\<lambda>x. 0 \<le> ticks x) rest"
    using all0 set by (auto simp: list_all_iff)
  let ?c = "\<lparr>ticks = 0, bpm = bpm f, time = 0\<rparr>"
  let ?s0 = "s\<lparr>tempos := [?c]\<rparr>"
  have ow: "overwriteTempoChanges evs s = overwriteLoop rest ?s0"
    using assms(1) fr f0 by (simp add: overwriteTempoChanges_def)
  have p1: "sorted (map ticks (tempos ?s0))" by simp
  have p2: "tempos ?s0 = ?c # []" by simp
  from overwriteLoop_head[OF p1 p2 _ _ rest0] obtain r e' es' where
    l: "overwriteLoop rest ?s0 = (r, ?s0\<lparr>tempos := e' # es'\<rparr>)"
      "ticks e' = 0" "time e' = 0"
      "list_all (\<lambda>x. 0 < ticks x) rest \<longrightarrow> bpm e' = bpm ?c"
      "bpm e' = bpm ?c \<or> (\<exists>x\<in>set rest. ticks x = 0 \<and> bpm e' = bpm x)"
      "0 < PPQ ?s0 \<longrightarrow> r = Inr ()" by auto
  have res: "overwriteTempoChanges evs s = (r, s\<lparr>tempos := e' # es'\<rparr>)"
    using ow l(1) by simp
  have some: "\<exists>x\<in>set evs. ticks x = 0 \<and> bpm e' = bpm x"
    using l(5) f0 fin set by auto
  have one: "filter (\<lambda>x. ticks x = 0) evs = [x0] \<longrightarrow> bpm e' = bpm x0"
  proof
    assume u: "filter (\<lambda>x. ticks x = 0) evs = [x0]"
    have "filter (\<lambda>y. ticks y = 0) (sort_key ticks evs) = filter (\<lambda>y. ticks y = 0) evs"
      by (rule sort_key_stable)
    then have "f # filter (\<lambda>y. ticks y = 0) rest = [x0]" using fr f0 u by simp
    then have fx: "f = x0" and none: "filter (\<lambda>y. ticks y = 0) rest = []" by simp_all
    have "list_all (\<lambda>x. 0 < ticks x) rest"
    proof -
      have "\<And>x. x \<in> set rest \<Longrightarrow> 0 < ticks x"
      proof -
        fix x assume x: "x \<in> set rest"
        then have "ticks x \<noteq> 0" using none by (auto simp: filter_empty_conv)
        moreover have "0 \<le> ticks x" using rest0 x by (simp add: list_all_iff)
        ultimately show "0 < ticks x" by simp
      qed
      then show ?thesis by (simp add: list_all_iff)
    qed
    then show "bpm e' = bpm x0" using l(4) fx by simp
  qed
  show ?thesis using res l(2,3,6) some one by auto
qed

section \<open>The invariant of the tempo sequence\<close>

lemma tempoInvariant_cong:
  "tempos s' = tempos s \<Longrightarrow> PPQ s' = PPQ s \<Longrightarrow> tempoInvariant s' = tempoInvariant s"
  by (simp add: tempoInvariant_def)

lemma tempoInvariant_empty: "tempos s = [] \<Longrightarrow> tempoInvariant s"
  by (simp add: tempoInvariant_def)

lemma retimed_invariant:
  assumes "sorted (map ticks es)" and "es \<noteq> []" and "ticks (es ! 0) = 0"
    and "list_all (\<lambda>e. 0 < bpm e) es"
  shows "tempoInvariant (s\<lparr>tempos := retimed (PPQ s) es\<rparr>)"
proof -
  let ?r = "retimed (PPQ s) es"
  have len: "length ?r = length es" by (rule retimed_length)
  have l0: "0 < length es" using assms(2) by simp
  then obtain e rest where c: "?r = e # rest" using len by (cases ?r) auto
  have "e = ?r ! 0" using c by simp
  then have h: "ticks e = 0" using retimed_nth[OF l0, of "PPQ s"] assms(3) by simp
  have s: "sorted (map ticks ?r)" using assms(1) by (simp add: retimed_ticks)
  have "list_all (\<lambda>b. 0 < b) (map bpm es)" using assms(4) by (simp add: list_all_iff)
  then have "list_all (\<lambda>b. 0 < b) (map bpm ?r)" by (simp add: retimed_bpm)
  then have b: "list_all (\<lambda>e. 0 < bpm e) ?r" by (simp add: list_all_iff)
  have tk: "\<And>j. j < length es \<Longrightarrow> ticks (?r ! j) = ticks (es ! j)"
    by (simp add: retimed_nth)
  have bp: "\<And>j. j < length es \<Longrightarrow> bpm (?r ! j) = bpm (es ! j)"
    by (simp add: retimed_nth)
  have t: "map time ?r = map (integratedTime (PPQ s) ?r) [0..<length ?r]"
  proof (rule nth_equalityI)
    show "length (map time ?r) = length (map (integratedTime (PPQ s) ?r) [0..<length ?r])"
      by simp
    fix k assume "k < length (map time ?r)"
    then have k: "k < length es" using len by simp
    have "integratedTime (PPQ s) ?r k = integratedTime (PPQ s) es k"
      by (rule integratedTime_cong) (use k tk bp in auto)
    then show "map time ?r ! k = map (integratedTime (PPQ s) ?r) [0..<length ?r] ! k"
      using k len by (simp add: retimed_nth)
  qed
  show ?thesis unfolding tempoInvariant_def using c h s b t by simp
qed

lemma tempoInvariant_head:
  "tempoInvariant s \<Longrightarrow> (case tempos s of [] \<Rightarrow> tk = 0 | e # es \<Rightarrow> ticks e = 0) \<or> tempos s = []"
  by (auto simp: tempoInvariant_def split: list.splits)

lemma createTempoChange_invariant:
  assumes "tempoInvariant s" and "0 \<le> tk" and "0 < b"
  shows "tempoInvariant (snd (createTempoChange tk b s))"
proof (cases "PPQ s \<le> 0 \<or> (tempos s = [] \<and> tk \<noteq> 0)")
  case True
  then have "snd (createTempoChange tk b s) = s" by (auto simp: createTempoChange_def)
  then show ?thesis using assms(1) by simp
next
  case False
  then have ppq: "0 < PPQ s" and ne: "tempos s \<noteq> [] \<or> tk = 0" by auto
  have srt: "sorted (map ticks (tempos s))" using assms(1) by (simp add: tempoInvariant_def)
  have hd: "case tempos s of [] \<Rightarrow> tk = 0 | e # es \<Rightarrow> ticks e = 0"
    using assms(1) ne by (auto simp: tempoInvariant_def split: list.splits)
  have bp: "list_all (\<lambda>e. 0 < bpm e) (tempos s)" using assms(1) by (simp add: tempoInvariant_def)
  from createTempoChange_retimed[OF ppq srt hd assms(2), of b] obtain tm where
    r: "snd (createTempoChange tk b s)
        = s\<lparr>tempos := retimed (PPQ s)
                (take (below ticks tk (tempos s)) (tempos s)
                 @ \<lparr>ticks = tk, bpm = b, time = tm\<rparr>
                 # drop (below ticks tk (tempos s)) (tempos s))\<rparr>" by force
  let ?tc = "\<lparr>ticks = tk, bpm = b, time = tm\<rparr>"
  let ?es1 = "take (below ticks tk (tempos s)) (tempos s) @ ?tc
              # drop (below ticks tk (tempos s)) (tempos s)"
  have p1: "sorted (map ticks ?es1)" using insert_below_sorted[OF srt, of ?tc tk] by simp
  have p2: "?es1 \<noteq> []" by simp
  have p3: "ticks (?es1 ! 0) = 0" using insert_below_head[OF hd assms(2), of ?tc] by simp
  have "set ?es1 \<subseteq> insert ?tc (set (tempos s))"
    using set_take_subset[of "below ticks tk (tempos s)" "tempos s"]
      set_drop_subset[of "below ticks tk (tempos s)" "tempos s"] by auto
  then have p4: "list_all (\<lambda>e. 0 < bpm e) ?es1"
    using bp assms(3) unfolding list_all_iff by fastforce
  show ?thesis unfolding r by (rule retimed_invariant[OF p1 p2 p3 p4])
qed

lemma overwriteLoop_invariant:
  "tempoInvariant s \<Longrightarrow> list_all (\<lambda>e. 0 \<le> ticks e \<and> 0 < bpm e) evs
   \<Longrightarrow> tempoInvariant (snd (overwriteLoop evs s))"
proof (induction evs arbitrary: s)
  case Nil
  then show ?case by simp
next
  case (Cons x evs)
  have x: "0 \<le> ticks x" "0 < bpm x" and rest: "list_all (\<lambda>e. 0 \<le> ticks e \<and> 0 < bpm e) evs"
    using Cons.prems(2) by simp_all
  obtain r s1 where c: "createTempoChange (ticks x) (bpm x) s = (r, s1)" by force
  have i1: "tempoInvariant s1"
    using createTempoChange_invariant[OF Cons.prems(1) x] c by simp
  show ?case
  proof (cases r)
    case (Inl e)
    then show ?thesis using c i1 by simp
  next
    case (Inr ev)
    then show ?thesis using c Cons.IH[OF i1 rest] by simp
  qed
qed

lemma overwriteTempoChanges_invariant:
  assumes "tempoInvariant s" and "list_all (\<lambda>e. 0 \<le> ticks e \<and> 0 < bpm e) evs"
  shows "tempoInvariant (snd (overwriteTempoChanges evs s))"
proof (cases "sort_key ticks evs")
  case Nil
  then show ?thesis using assms(1) by (simp add: overwriteTempoChanges_def)
next
  case (Cons f rest)
  have set: "set (f # rest) = set evs" using Cons by (metis set_sort)
  show ?thesis
  proof (cases "evs = [] \<or> 0 < ticks f")
    case True
    then show ?thesis using assms(1) Cons by (auto simp: overwriteTempoChanges_def)
  next
    case False
    let ?s0 = "s\<lparr>tempos := [\<lparr>ticks = 0, bpm = bpm f, time = 0\<rparr>]\<rparr>"
    have ow: "overwriteTempoChanges evs s = overwriteLoop rest ?s0"
      using False Cons by (simp add: overwriteTempoChanges_def)
    have "f \<in> set evs" using set by auto
    then have "0 < bpm f" using assms(2) by (simp add: list_all_iff)
    then have i0: "tempoInvariant ?s0" by (simp add: tempoInvariant_def)
    have rest: "list_all (\<lambda>e. 0 \<le> ticks e \<and> 0 < bpm e) rest"
      using assms(2) set by (auto simp: list_all_iff)
    show ?thesis unfolding ow by (rule overwriteLoop_invariant[OF i0 rest])
  qed
qed

lemma update_bpm_ticks:
  "map ticks (es[i := (es ! i)\<lparr>bpm := v\<rparr>]) = map ticks es"
  by (cases "i < length es") (auto simp: nth_list_update intro!: nth_equalityI)

lemma updateTempo_invariant:
  assumes "tempoInvariant s" and "0 < b"
  shows "tempoInvariant (snd (updateTempo i b s))"
proof (cases "tempos s")
  case Nil
  then have "updateTempo i b s = (Inr (), s\<lparr>tempos := []\<rparr>)"
    by (simp add: updateTempo_def retimingTempoEvents_def)
  then show ?thesis by (simp add: tempoInvariant_empty)
next
  case (Cons e es)
  let ?es1 = "(tempos s)[i := (tempos s ! i)\<lparr>bpm := b\<rparr>]"
  let ?s1 = "s\<lparr>tempos := ?es1\<rparr>"
  have srt0: "sorted (map ticks (tempos s))"
    and bp0: "list_all (\<lambda>e. 0 < bpm e) (tempos s)"
    using assms(1) unfolding tempoInvariant_def by blast+
  have h0: "ticks e = 0" using assms(1) Cons by (simp add: tempoInvariant_def)
  have tk: "map ticks ?es1 = map ticks (tempos s)" by (rule update_bpm_ticks)
  have p1: "sorted (map ticks (tempos ?s1))" using srt0 tk by simp
  have "length ?es1 = length (tempos s)" by simp
  then have p2: "tempos ?s1 \<noteq> []" using Cons by (metis Song.select_convs(3) Song.surjective Song.update_convs(3) length_0_conv list.discI)
  have "ticks (?es1 ! 0) = ticks (tempos s ! 0)"
    using tk Cons by (metis length_greater_0_conv list.discI nth_map length_map)
  then have p3: "ticks (tempos ?s1 ! 0) = 0" using Cons h0 by simp
  have "set ?es1 \<subseteq> insert ((tempos s ! i)\<lparr>bpm := b\<rparr>) (set (tempos s))"
    by (rule set_update_subset_insert)
  then have p4: "list_all (\<lambda>e. 0 < bpm e) (tempos ?s1)"
    using bp0 assms(2) unfolding list_all_iff by fastforce
  have "retimingTempoEvents ?s1 = (Inr (), ?s1\<lparr>tempos := retimed (PPQ ?s1) (tempos ?s1)\<rparr>)"
    by (rule retimingTempoEvents_spec[OF p1 p2 p3])
  then have r: "snd (updateTempo i b s) = ?s1\<lparr>tempos := retimed (PPQ ?s1) (tempos ?s1)\<rparr>"
    by (simp add: updateTempo_def)
  show ?thesis unfolding r by (rule retimed_invariant[OF p1 p2 p3 p4])
qed

lemma getNextTrackId_keeps:
  "getNextTrackId w s = (r, w', s') \<Longrightarrow>
   tempos s' = tempos s \<and> PPQ s' = PPQ s \<and> tracks s' = tracks s
   \<and> timeSignatures s' = timeSignatures s \<and> nextTrackRank s' = nextTrackRank s"
  by (auto simp: getNextTrackId_def Let_def split: option.splits if_splits)

lemma createTrack_timeline:
  assumes "createTrack ty idx rk w s = (r, w', s')"
  shows "tempos s' = tempos s \<and> PPQ s' = PPQ s \<and> timeSignatures s' = timeSignatures s"
proof (cases "checkAccess ''createTrack'' w s")
  case (Inl e)
  then show ?thesis using assms by (simp add: createTrack_def)
next
  case (Inr u)
  obtain rank1 s1 where rs: "(case rk of None \<Rightarrow> getNextTrackRank s
       | Some r \<Rightarrow> (r, s\<lparr>nextTrackRank := max (r + 1) (nextTrackRank s)\<rparr>)) = (rank1, s1)"
    by force
  have k1: "tempos s1 = tempos s \<and> PPQ s1 = PPQ s \<and> timeSignatures s1 = timeSignatures s"
    using rs by (auto simp: getNextTrackRank_def split: option.splits)
  obtain r2 w2 s2 where g: "getNextTrackId w s1 = (r2, w2, s2)" by (metis prod_cases3)
  have k2: "tempos s2 = tempos s1 \<and> PPQ s2 = PPQ s1 \<and> timeSignatures s2 = timeSignatures s1"
    using getNextTrackId_keeps[OF g] by simp
  show ?thesis
    using assms Inr rs g k1 k2
    by (cases r2; cases idx) (auto simp: createTrack_def Let_def)
qed

lemma importTracks_timeline:
  "importTracks rts off f w s = (r, w', s') \<Longrightarrow>
   tempos s' = tempos s \<and> PPQ s' = PPQ s \<and> timeSignatures s' = timeSignatures s"
proof (induction rts arbitrary: w s)
  case Nil
  then show ?case by simp
next
  case (Cons rt rts)
  obtain r1 w1 s1 where c: "createTrack MIDI_TRACK None None w s = (r1, w1, s1)"
    by (metis prod_cases3)
  have k: "tempos s1 = tempos s \<and> PPQ s1 = PPQ s \<and> timeSignatures s1 = timeSignatures s"
    by (rule createTrack_timeline[OF c])
  show ?case
  proof (cases r1)
    case (Inl e)
    then show ?thesis using Cons.prems c k by simp
  next
    case (Inr songTrack)
    let ?s2 = "s1\<lparr>tracks := butlast (tracks s1) @ [importTrackContent rt off f songTrack]\<rparr>"
    have "importTracks rts off f w1 ?s2 = (r, w', s')" using Cons.prems c Inr by simp
    from Cons.IH[OF this] show ?thesis using k by simp
  qed
qed

lemma scaleIntBy_nonneg: "0 \<le> v \<Longrightarrow> 0 \<le> f \<Longrightarrow> 0 \<le> scaleIntBy v f"
proof -
  assume "0 \<le> v" "0 \<le> f"
  then have "(0::real) \<le> real_of_int v * f" by simp
  then have "round (0::real) \<le> round (real_of_int v * f)" by (rule round_mono)
  then show ?thesis by (simp add: scaleIntBy_def)
qed

lemma importedTempos_valid:
  assumes "0 \<le> off" and "0 \<le> f"
    and "list_all (\<lambda>r. 0 \<le> rawTempoTicks r \<and> 0 < rawTempoBpm r) raws"
  shows "list_all (\<lambda>e. 0 \<le> ticks e \<and> 0 < bpm e) (importedTempos raws off f)"
  using assms scaleIntBy_nonneg[of _ f]
  by (auto simp: importedTempos_def list_all_iff intro!: add_nonneg_nonneg)

lemma importMIDI_invariant:
  assumes "tempoInvariant s" and "0 \<le> off" and "0 < headerPpq midi"
    and "list_all (\<lambda>r. 0 \<le> rawTempoTicks r \<and> 0 < rawTempoBpm r) (headerTempos midi)"
  shows "tempoInvariant (snd (snd (importMIDI midi off ov w s)))"
proof -
  let ?f = "480 / real_of_int (headerPpq midi)"
  have f: "0 \<le> ?f" using assms(3) by simp
  obtain r w' s' where res: "importMIDI midi off ov w s = (r, w', s')" by (metis prod_cases3)
  show ?thesis
  proof (cases ov)
    case False
    then have "importTracks (midiTracks midi) off ?f w s = (r, w', s')"
      using res by (simp add: importMIDI_def)
    from importTracks_timeline[OF this] have "tempoInvariant s' = tempoInvariant s"
      by (intro tempoInvariant_cong) simp_all
    then show ?thesis using res assms(1) by simp
  next
    case True
    let ?s0 = "overwriteTimeSignatures
                 (importedTimeSignatures (headerTimeSignatures midi) off ?f) s"
    have i0: "tempoInvariant ?s0"
      using assms(1) tempoInvariant_cong[of ?s0 s] by (simp add: overwriteTimeSignatures_def)
    obtain r1 s1 where o: "overwriteTempoChanges (importedTempos (headerTempos midi) off ?f) ?s0
                           = (r1, s1)" by force
    have i1: "tempoInvariant s1"
      using overwriteTempoChanges_invariant[OF i0 importedTempos_valid[OF assms(2) f assms(4)]] o
      by simp
    show ?thesis
    proof (cases r1)
      case (Inl e)
      then have "s' = s1" using res True o by (simp add: importMIDI_def)
      then show ?thesis using res i1 by simp
    next
      case (Inr u)
      then have "importTracks (midiTracks midi) off ?f w s1 = (r, w', s')"
        using res True o by (simp add: importMIDI_def)
      from importTracks_timeline[OF this] have "tempoInvariant s' = tempoInvariant s1"
        by (intro tempoInvariant_cong) simp_all
      then show ?thesis using res i1 by simp
    qed
  qed
qed

section \<open>From ticks to seconds and back\<close>








section \<open>Finding and removing a track\<close>

lemma findIndex_first:
  "list_all (\<lambda>x. \<not> P x) before \<Longrightarrow> P x \<Longrightarrow> findIndex (before @ x # after) P = int (length before)"
  by (induction before) auto

lemma find_first:
  "list_all (\<lambda>x. \<not> P x) before \<Longrightarrow> P x \<Longrightarrow> find P (before @ x # after) = Some x"
  by (induction before) auto

lemma find_none: "list_all (\<lambda>x. \<not> P x) xs \<Longrightarrow> find P xs = None"
  by (induction xs) auto

lemma splice_remove_at:
  "splice_remove (before @ x # after) (int (length before)) = before @ after"
  by (simp add: splice_remove_def Let_def min_def)

section \<open>The identifier pool through a run\<close>

lemma getNextTrackId_next:
  assumes "pluginContext s = Some \<lparr>plugin = p, numTracksCreatedByPlugin = n\<rparr>"
    and "n \<le> length (generatedTrackIdsInternal (plugins w p))"
  shows "\<exists>w'. getNextTrackId w s
           = (Inr (generatedTrackIdsInternal (plugins w' p) ! n), w',
              s\<lparr>pluginContext := Some \<lparr>plugin = p, numTracksCreatedByPlugin = Suc n\<rparr>\<rparr>)
         \<and> generatedTrackIdsInternal (plugins w' p)
             = (if n = length (generatedTrackIdsInternal (plugins w p))
                then generatedTrackIdsInternal (plugins w p) @ [idSource w (idsDrawn w)]
                else generatedTrackIdsInternal (plugins w p))
         \<and> songAccess (plugins w' p) = songAccess (plugins w p)"
  using assms by (auto simp: getNextTrackId_def Let_def)

lemma createTrack_next:
  assumes "''createTrack'' \<in> songAccess (plugins w p)"
    and "pluginContext s = Some \<lparr>plugin = p, numTracksCreatedByPlugin = n\<rparr>"
    and "n \<le> length (generatedTrackIdsInternal (plugins w p))"
  shows "\<exists>t w' s'. createTrack ty idx rk w s = (Inr t, w', s')
         \<and> uuid t = generatedTrackIdsInternal (plugins w' p) ! n
         \<and> pluginContext s' = Some \<lparr>plugin = p, numTracksCreatedByPlugin = Suc n\<rparr>
         \<and> generatedTrackIdsInternal (plugins w' p)
             = (if n = length (generatedTrackIdsInternal (plugins w p))
                then generatedTrackIdsInternal (plugins w p) @ [idSource w (idsDrawn w)]
                else generatedTrackIdsInternal (plugins w p))
         \<and> songAccess (plugins w' p) = songAccess (plugins w p)"
proof -
  have acc: "checkAccess ''createTrack'' w s = Inr ()"
    using assms(1,2) by (simp add: checkAccess_def)
  obtain rank1 s1 where rs: "(case rk of None \<Rightarrow> getNextTrackRank s
       | Some r \<Rightarrow> (r, s\<lparr>nextTrackRank := max (r + 1) (nextTrackRank s)\<rparr>)) = (rank1, s1)"
    by force
  have c1: "pluginContext s1 = Some \<lparr>plugin = p, numTracksCreatedByPlugin = n\<rparr>"
    using rs assms(2) by (auto simp: getNextTrackRank_def split: option.splits)
  from getNextTrackId_next[OF c1 assms(3)] obtain w' where
    g: "getNextTrackId w s1
           = (Inr (generatedTrackIdsInternal (plugins w' p) ! n), w',
              s1\<lparr>pluginContext := Some \<lparr>plugin = p, numTracksCreatedByPlugin = Suc n\<rparr>\<rparr>)"
      "generatedTrackIdsInternal (plugins w' p)
             = (if n = length (generatedTrackIdsInternal (plugins w p))
                then generatedTrackIdsInternal (plugins w p) @ [idSource w (idsDrawn w)]
                else generatedTrackIdsInternal (plugins w p))"
      "songAccess (plugins w' p) = songAccess (plugins w p)" by blast
  show ?thesis
    using acc rs g by (cases idx) (auto simp: createTrack_def Let_def)
qed

lemma createTracks_ids:
  assumes "''createTrack'' \<in> songAccess (plugins w p)"
    and "pluginContext s = Some \<lparr>plugin = p, numTracksCreatedByPlugin = n\<rparr>"
    and "n \<le> length (generatedTrackIdsInternal (plugins w p))"
  shows "\<exists>ts w' s'. createTracks args w s = (Inr ts, w', s')
         \<and> map uuid ts = take (length args) (drop n (generatedTrackIdsInternal (plugins w' p)))
         \<and> n + length args \<le> length (generatedTrackIdsInternal (plugins w' p))
         \<and> take (length (generatedTrackIdsInternal (plugins w p)))
                 (generatedTrackIdsInternal (plugins w' p))
             = generatedTrackIdsInternal (plugins w p)
         \<and> (n + length args \<le> length (generatedTrackIdsInternal (plugins w p)) \<longrightarrow>
              generatedTrackIdsInternal (plugins w' p) = generatedTrackIdsInternal (plugins w p))
         \<and> songAccess (plugins w' p) = songAccess (plugins w p)"
  using assms
proof (induction args arbitrary: w s n)
  case Nil
  then show ?case by simp
next
  case (Cons a args)
  obtain ty idx rk where a: "a = (ty, idx, rk)" by (cases a) auto
  let ?pool = "generatedTrackIdsInternal (plugins w p)"
  from createTrack_next[OF Cons.prems, of ty idx rk] obtain t w1 s1 where
    c: "createTrack ty idx rk w s = (Inr t, w1, s1)"
      "uuid t = generatedTrackIdsInternal (plugins w1 p) ! n"
      "pluginContext s1 = Some \<lparr>plugin = p, numTracksCreatedByPlugin = Suc n\<rparr>"
      "generatedTrackIdsInternal (plugins w1 p)
         = (if n = length ?pool then ?pool @ [idSource w (idsDrawn w)] else ?pool)"
      "songAccess (plugins w1 p) = songAccess (plugins w p)" by blast
  let ?pool1 = "generatedTrackIdsInternal (plugins w1 p)"
  have n1: "Suc n \<le> length ?pool1" using c(4) Cons.prems(3) by auto
  have acc1: "''createTrack'' \<in> songAccess (plugins w1 p)" using c(5) Cons.prems(1) by simp
  from Cons.IH[OF acc1 c(3) n1] obtain ts w2 s2 where
    i: "createTracks args w1 s1 = (Inr ts, w2, s2)"
      "map uuid ts = take (length args) (drop (Suc n) (generatedTrackIdsInternal (plugins w2 p)))"
      "Suc n + length args \<le> length (generatedTrackIdsInternal (plugins w2 p))"
      "take (length ?pool1) (generatedTrackIdsInternal (plugins w2 p)) = ?pool1"
      "Suc n + length args \<le> length ?pool1 \<longrightarrow>
         generatedTrackIdsInternal (plugins w2 p) = ?pool1"
      "songAccess (plugins w2 p) = songAccess (plugins w1 p)" by blast
  let ?pool2 = "generatedTrackIdsInternal (plugins w2 p)"
  have r: "createTracks (a # args) w s = (Inr (t # ts), w2, s2)"
    using a c(1) i(1) by simp
  have "?pool2 ! n = ?pool1 ! n"
    using i(4) n1 by (metis Suc_le_lessD nth_take)
  then have ids: "map uuid (t # ts) = take (length (a # args)) (drop n ?pool2)"
    using c(2) i(2,3) by (simp add: Cons_nth_drop_Suc[symmetric])
  have len: "n + length (a # args) \<le> length ?pool2" using i(3) by simp
  have pre1: "take (length ?pool) ?pool1 = ?pool" using c(4) by simp
  have "length ?pool \<le> length ?pool1" using c(4) by simp
  then have pre: "take (length ?pool) ?pool2 = ?pool"
    using i(4) pre1 by (metis min.absorb1 take_take)
  have same: "n + length (a # args) \<le> length ?pool \<longrightarrow> ?pool2 = ?pool"
    using i(5) c(4) by auto
  have acc: "songAccess (plugins w2 p) = songAccess (plugins w p)" using i(6) c(5) by simp
  show ?case using r ids len pre same acc by blast
qed

section \<open>What an import stores\<close>





















section \<open>The claims\<close>




text \<open>
  Claim C2, as stated, fails: a tempo change created at tick 0 of a song that has a tempo
  event at tick 0 (120 BPM) is stored before that event, not after it.
\<close>

theorem createTempoChange_existing_tick_counterexample:
  "map bpm (tempos (snd (createTempoChange 0 100
       (newSong\<lparr>PPQ := 480, tempos := [\<lparr>ticks = 0, bpm = 120, time = 0\<rparr>]\<rparr>))))
   = [100, 120]"
  using createTempoChange_shape
          [of "newSong\<lparr>PPQ := 480, tempos := [\<lparr>ticks = 0, bpm = 120, time = 0\<rparr>]\<rparr>" 0 100]
  by (auto simp: below_def)

text \<open>
  Claim C2, amended. In a song with its resolution set and its tempo sequence sorted by
  tick, \<open>createTempoChange\<close> at a tick \<open>t\<close> that the sequence already has returns the new
  event and keeps every prior event, in the prior order; the new event is stored at the
  first position whose tick is not less than \<open>t\<close>, that is before every prior event at
  tick \<open>t\<close>.
\<close>

theorem createTempoChange_existing_tick:
  assumes "0 < PPQ s" and "sorted (map ticks (tempos s))" and "t \<in> set (map ticks (tempos s))"
  shows "\<exists>ev s' n. createTempoChange t b s = (Inr ev, s')
           \<and> n < length (tempos s)
           \<and> map ticks (tempos s') =
               map ticks (take n (tempos s)) @ t # map ticks (drop n (tempos s))
           \<and> map bpm (tempos s') =
               map bpm (take n (tempos s)) @ b # map bpm (drop n (tempos s))
           \<and> list_all (\<lambda>e. ticks e < t) (take n (tempos s))
           \<and> list_all (\<lambda>e. t \<le> ticks e) (drop n (tempos s))"
proof -
  let ?n = "below ticks t (tempos s)"
  have ne: "tempos s \<noteq> [] \<or> t = 0" using assms(3) by auto
  from createTempoChange_shape[OF assms(1,2) ne, of b] obtain tm es' where
    r: "createTempoChange t b s = (Inr \<lparr>ticks = t, bpm = b, time = tm\<rparr>, s\<lparr>tempos := es'\<rparr>)"
      "map ticks es' = map ticks (take ?n (tempos s)) @ t # map ticks (drop ?n (tempos s))"
      "map bpm es' = map bpm (take ?n (tempos s)) @ b # map bpm (drop ?n (tempos s))"
    by blast
  have before: "list_all (\<lambda>e. ticks e < t) (take ?n (tempos s))"
    using below_before[of _ ticks t "tempos s"] by (simp add: list_all_iff)
  have after: "list_all (\<lambda>e. t \<le> ticks e) (drop ?n (tempos s))"
    using below_after[OF assms(2), of _ t] by (simp add: list_all_iff)
  obtain e where e: "e \<in> set (tempos s)" "ticks e = t" using assms(3) by auto
  have "e \<notin> set (take ?n (tempos s))" using below_before[of e ticks t "tempos s"] e(2) by auto
  then have "take ?n (tempos s) \<noteq> tempos s" using e(1) by auto
  then have n: "?n < length (tempos s)" by (metis not_le take_all)
  show ?thesis using r before after n by fastforce
qed

theorem createTempoChange_existing_tick_witness:
  "\<exists>ev s'. createTempoChange 0 100
              (newSong\<lparr>PPQ := 480, tempos := [\<lparr>ticks = 0, bpm = 120, time = 0\<rparr>]\<rparr>)
            = (Inr ev, s')
       \<and> map ticks (tempos s') = [0, 0] \<and> map bpm (tempos s') = [100, 120]"
  using createTempoChange_existing_tick
          [of "newSong\<lparr>PPQ := 480, tempos := [\<lparr>ticks = 0, bpm = 120, time = 0\<rparr>]\<rparr>" 0 100]
  by (auto simp: newSong_def)

text \<open>
  Claim C3. A plugin that may create tracks runs twice, each run creating the same number
  of tracks (with any types, positions and ranks), the context being set again with
  \<open>setPluginContextInternal\<close> before each run and the plugin instance kept: both runs
  succeed and give the tracks the same identifiers in the same order, whatever the pool of
  the plugin held before and whatever song the second run works on. When the counter of
  the context exceeds the size of the pool, \<open>getNextTrackId\<close> throws, and so does
  \<open>createTrack\<close>.
\<close>

theorem replay_identifiers:
  "(''createTrack'' \<in> songAccess (plugins w p) \<and> length argsA = length argsB \<longrightarrow>
      (\<exists>ts1 w1 s1 ts2 w2 s2.
          createTracks argsA w (setPluginContextInternal p s) = (Inr ts1, w1, s1)
        \<and> createTracks argsB w1 (setPluginContextInternal p sx) = (Inr ts2, w2, s2)
        \<and> length ts1 = length argsA \<and> map uuid ts2 = map uuid ts1))
   \<and> (pluginContext s' = Some ctx
       \<and> length (generatedTrackIdsInternal (plugins w' (plugin ctx)))
           < numTracksCreatedByPlugin ctx \<longrightarrow>
        getNextTrackId w' s'
          = (Inl (Error ''Plugin generated track ids out of sync.''), w', s')
        \<and> (''createTrack'' \<in> songAccess (plugins w' (plugin ctx)) \<longrightarrow>
             fst (createTrack ty idx rk w' s')
               = Inl (Error ''Plugin generated track ids out of sync.'')))"
proof (intro conjI impI)
  assume a: "''createTrack'' \<in> songAccess (plugins w p) \<and> length argsA = length argsB"
  let ?c0 = "\<lparr>plugin = p, numTracksCreatedByPlugin = 0\<rparr>"
  have c: "pluginContext (setPluginContextInternal p s) = Some ?c0"
    "pluginContext (setPluginContextInternal p sx) = Some ?c0"
    by (simp_all add: setPluginContextInternal_def)
  from createTracks_ids[OF _ c(1), of w argsA] a obtain ts1 w1 s1 where
    r1: "createTracks argsA w (setPluginContextInternal p s) = (Inr ts1, w1, s1)"
      "map uuid ts1 = take (length argsA) (generatedTrackIdsInternal (plugins w1 p))"
      "length argsA \<le> length (generatedTrackIdsInternal (plugins w1 p))"
      "songAccess (plugins w1 p) = songAccess (plugins w p)" by auto
  have acc1: "''createTrack'' \<in> songAccess (plugins w1 p)" using r1(4) a by simp
  from createTracks_ids[OF acc1 c(2), of argsB] obtain ts2 w2 s2 where
    r2: "createTracks argsB w1 (setPluginContextInternal p sx) = (Inr ts2, w2, s2)"
      "map uuid ts2 = take (length argsB) (generatedTrackIdsInternal (plugins w2 p))"
      "length argsB \<le> length (generatedTrackIdsInternal (plugins w1 p)) \<longrightarrow>
         generatedTrackIdsInternal (plugins w2 p) = generatedTrackIdsInternal (plugins w1 p)"
    by auto
  have same: "map uuid ts2 = map uuid ts1" using r1(2,3) r2(2,3) a by simp
  have "length (map uuid ts1) = length argsA" using r1(2,3) by simp
  then have len: "length ts1 = length argsA" by simp
  show "\<exists>ts1 w1 s1 ts2 w2 s2.
          createTracks argsA w (setPluginContextInternal p s) = (Inr ts1, w1, s1)
        \<and> createTracks argsB w1 (setPluginContextInternal p sx) = (Inr ts2, w2, s2)
        \<and> length ts1 = length argsA \<and> map uuid ts2 = map uuid ts1"
    using r1(1) r2(1) len same by blast
next
  assume b: "pluginContext s' = Some ctx
       \<and> length (generatedTrackIdsInternal (plugins w' (plugin ctx)))
           < numTracksCreatedByPlugin ctx"
  then show "getNextTrackId w' s'
          = (Inl (Error ''Plugin generated track ids out of sync.''), w', s')"
    by (simp add: getNextTrackId_def Let_def)
next
  assume b: "pluginContext s' = Some ctx
       \<and> length (generatedTrackIdsInternal (plugins w' (plugin ctx)))
           < numTracksCreatedByPlugin ctx"
    and acc: "''createTrack'' \<in> songAccess (plugins w' (plugin ctx))"
  have ca: "checkAccess ''createTrack'' w' s' = Inr ()"
    using b acc by (simp add: checkAccess_def)
  obtain rank1 s1 where rs: "(case rk of None \<Rightarrow> getNextTrackRank s'
       | Some r \<Rightarrow> (r, s'\<lparr>nextTrackRank := max (r + 1) (nextTrackRank s')\<rparr>)) = (rank1, s1)"
    by force
  have c1: "pluginContext s1 = Some ctx"
    using rs b by (auto simp: getNextTrackRank_def split: option.splits)
  have "getNextTrackId w' s1
          = (Inl (Error ''Plugin generated track ids out of sync.''), w', s1)"
    using b c1 by (simp add: getNextTrackId_def Let_def)
  then show "fst (createTrack ty idx rk w' s')
               = Inl (Error ''Plugin generated track ids out of sync.'')"
    using ca rs by (simp add: createTrack_def)
qed

theorem replay_identifiers_witness:
  "(\<exists>ts1 w1 s1 ts2 w2 s2.
      createTracks [(MIDI_TRACK, None, None), (AUDIO_TRACK, Some 0, None)]
        \<lparr>plugins = (\<lambda>p. \<lparr>providerId = Some ''acme'', pluginId = Some ''maker'',
                          songAccess = {''createTrack''}, generatedTrackIdsInternal = []\<rparr>),
         idSource = (\<lambda>n. if n = 0 then ''first'' else ''later''), idsDrawn = 0\<rparr>
        (setPluginContextInternal 0 newSong) = (Inr ts1, w1, s1)
    \<and> createTracks [(AUDIO_TRACK, None, Some 7), (MIDI_TRACK, None, None)] w1
        (setPluginContextInternal 0 newSong) = (Inr ts2, w2, s2)
    \<and> length ts1 = length [(MIDI_TRACK, None, None), (AUDIO_TRACK, Some (0::int), None::int option)]
    \<and> map uuid ts2 = map uuid ts1)
   \<and> getNextTrackId
        \<lparr>plugins = (\<lambda>p. \<lparr>providerId = Some ''acme'', pluginId = Some ''maker'',
                          songAccess = {''createTrack''}, generatedTrackIdsInternal = []\<rparr>),
         idSource = (\<lambda>n. if n = 0 then ''first'' else ''later''), idsDrawn = 0\<rparr>
        (newSong\<lparr>pluginContext := Some \<lparr>plugin = 0, numTracksCreatedByPlugin = 1\<rparr>\<rparr>)
      = (Inl (Error ''Plugin generated track ids out of sync.''),
         \<lparr>plugins = (\<lambda>p. \<lparr>providerId = Some ''acme'', pluginId = Some ''maker'',
                          songAccess = {''createTrack''}, generatedTrackIdsInternal = []\<rparr>),
          idSource = (\<lambda>n. if n = 0 then ''first'' else ''later''), idsDrawn = 0\<rparr>,
         newSong\<lparr>pluginContext := Some \<lparr>plugin = 0, numTracksCreatedByPlugin = 1\<rparr>\<rparr>)
   \<and> fst (createTrack MIDI_TRACK None None
        \<lparr>plugins = (\<lambda>p. \<lparr>providerId = Some ''acme'', pluginId = Some ''maker'',
                          songAccess = {''createTrack''}, generatedTrackIdsInternal = []\<rparr>),
         idSource = (\<lambda>n. if n = 0 then ''first'' else ''later''), idsDrawn = 0\<rparr>
        (newSong\<lparr>pluginContext := Some \<lparr>plugin = 0, numTracksCreatedByPlugin = 1\<rparr>\<rparr>))
      = Inl (Error ''Plugin generated track ids out of sync.'')"
proof -
  note t = replay_identifiers
          [where w = "\<lparr>plugins = (\<lambda>p. \<lparr>providerId = Some ''acme'', pluginId = Some ''maker'',
                          songAccess = {''createTrack''}, generatedTrackIdsInternal = []\<rparr>),
                        idSource = (\<lambda>n. if n = 0 then ''first'' else ''later''), idsDrawn = 0\<rparr>"
             and p = 0 and s = newSong and sx = newSong
             and argsA = "[(MIDI_TRACK, None, None), (AUDIO_TRACK, Some 0, None)]"
             and argsB = "[(AUDIO_TRACK, None, Some 7), (MIDI_TRACK, None, None)]"
             and w' = "\<lparr>plugins = (\<lambda>p. \<lparr>providerId = Some ''acme'', pluginId = Some ''maker'',
                          songAccess = {''createTrack''}, generatedTrackIdsInternal = []\<rparr>),
                        idSource = (\<lambda>n. if n = 0 then ''first'' else ''later''), idsDrawn = 0\<rparr>"
             and s' = "newSong\<lparr>pluginContext := Some \<lparr>plugin = 0, numTracksCreatedByPlugin = 1\<rparr>\<rparr>"
             and ctx = "\<lparr>plugin = 0, numTracksCreatedByPlugin = 1\<rparr>"
             and ty = MIDI_TRACK and idx = None and rk = None]
  have a: "''createTrack'' \<in> {''createTrack''}
           \<and> length [(MIDI_TRACK, None, None), (AUDIO_TRACK, Some (0::int), None::int option)]
             = length [(AUDIO_TRACK, None::int option, Some (7::int)), (MIDI_TRACK, None, None)]"
    by simp
  show ?thesis
    using t[THEN conjunct1] t[THEN conjunct2] a
    by (simp del: createTracks.simps)
qed



text \<open>
  Claim C5, as stated, fails when several input events are at tick 0: the canonical event
  is built from the first of them (100 BPM here), and the other one, inserted through
  \<open>createTempoChange\<close>, is stored before it.
\<close>

theorem overwriteTempoChanges_first_counterexample:
  "map bpm (tempos (snd (overwriteTempoChanges
       [\<lparr>ticks = 0, bpm = 100, time = 0\<rparr>, \<lparr>ticks = 0, bpm = 120, time = 0\<rparr>]
       (setResolution 480 newSong))))
   = [120, 100]"
proof -
  let ?s0 = "setResolution 480 newSong\<lparr>tempos := [\<lparr>ticks = 0, bpm = 100, time = 0\<rparr>]\<rparr>"
  have ow: "overwriteTempoChanges
       [\<lparr>ticks = 0, bpm = 100, time = 0\<rparr>, \<lparr>ticks = 0, bpm = 120, time = 0\<rparr>]
       (setResolution 480 newSong)
     = overwriteLoop [\<lparr>ticks = 0, bpm = 120, time = 0\<rparr>] ?s0"
    by (simp add: overwriteTempoChanges_def)
  have s: "0 < PPQ ?s0" "sorted (map ticks (tempos ?s0))" "tempos ?s0 \<noteq> [] \<or> (0::int) = 0"
    by (simp_all add: setResolution_def newSong_def)
  from createTempoChange_shape[OF s, of 120] obtain tm es' where
    c: "createTempoChange 0 120 ?s0
          = (Inr \<lparr>ticks = 0, bpm = 120, time = tm\<rparr>, ?s0\<lparr>tempos := es'\<rparr>)"
      "map bpm es' = [120, 100]"
    by (auto simp: below_def)
  show ?thesis unfolding ow using c by simp
qed

text \<open>
  Claim C5, amended. For a non-empty input list whose earliest tick is 0, the first tempo
  event stored by \<open>overwriteTempoChanges\<close> has tick 0 and time 0, whatever times the input
  events carried, and its tempo is that of an input event at tick 0: of the earliest
  input event, when it is the only input event at tick 0. With the resolution set the
  call succeeds. The call fails, and leaves the song as it was, when the input is empty
  and when the earliest input tick is greater than 0.
\<close>

theorem overwriteTempoChanges_first:
  "(evs \<noteq> [] \<and> list_all (\<lambda>x. 0 \<le> ticks x) evs \<and> x0 \<in> set evs \<and> ticks x0 = 0 \<longrightarrow>
      (\<exists>r e' es'. overwriteTempoChanges evs s = (r, s\<lparr>tempos := e' # es'\<rparr>)
           \<and> ticks e' = 0 \<and> time e' = 0
           \<and> (\<exists>x\<in>set evs. ticks x = 0 \<and> bpm e' = bpm x)
           \<and> (filter (\<lambda>x. ticks x = 0) evs = [x0] \<longrightarrow> bpm e' = bpm x0)
           \<and> (0 < PPQ s \<longrightarrow> r = Inr ())))
   \<and> (evs = [] \<longrightarrow>
      overwriteTempoChanges evs s = (Inl (Error ''Cannot clear all the tempo events.''), s))
   \<and> (evs \<noteq> [] \<and> list_all (\<lambda>x. 0 < ticks x) evs \<longrightarrow>
      overwriteTempoChanges evs s
      = (Inl (Error ''The first tempo event needs to start from tick 0''), s))"
proof (intro conjI impI)
  assume "evs \<noteq> [] \<and> list_all (\<lambda>x. 0 \<le> ticks x) evs \<and> x0 \<in> set evs \<and> ticks x0 = 0"
  then show "\<exists>r e' es'. overwriteTempoChanges evs s = (r, s\<lparr>tempos := e' # es'\<rparr>)
           \<and> ticks e' = 0 \<and> time e' = 0
           \<and> (\<exists>x\<in>set evs. ticks x = 0 \<and> bpm e' = bpm x)
           \<and> (filter (\<lambda>x. ticks x = 0) evs = [x0] \<longrightarrow> bpm e' = bpm x0)
           \<and> (0 < PPQ s \<longrightarrow> r = Inr ())"
    using overwriteTempoChanges_head[of evs x0 s] by blast
next
  assume "evs = []"
  then show "overwriteTempoChanges evs s
             = (Inl (Error ''Cannot clear all the tempo events.''), s)"
    by (simp add: overwriteTempoChanges_def)
next
  assume a: "evs \<noteq> [] \<and> list_all (\<lambda>x. 0 < ticks x) evs"
  then have "sort_key ticks evs \<noteq> []" by (metis length_sort length_0_conv)
  then obtain f rest where fr: "sort_key ticks evs = f # rest"
    by (cases "sort_key ticks evs") auto
  have "f \<in> set evs" using fr by (metis set_sort list.set_intros(1))
  then have "0 < ticks f" using a by (simp add: list_all_iff)
  then show "overwriteTempoChanges evs s
      = (Inl (Error ''The first tempo event needs to start from tick 0''), s)"
    using a fr by (simp add: overwriteTempoChanges_def)
qed

theorem overwriteTempoChanges_first_witness:
  "(\<exists>r e' es'. overwriteTempoChanges
        [\<lparr>ticks = 0, bpm = 100, time = 7\<rparr>, \<lparr>ticks = 480, bpm = 120, time = 9\<rparr>]
        (setResolution 480 newSong) = (r, setResolution 480 newSong\<lparr>tempos := e' # es'\<rparr>)
      \<and> ticks e' = 0 \<and> time e' = 0 \<and> bpm e' = 100 \<and> r = Inr ())
   \<and> overwriteTempoChanges [] newSong
       = (Inl (Error ''Cannot clear all the tempo events.''), newSong)
   \<and> overwriteTempoChanges [\<lparr>ticks = 5, bpm = 100, time = 0\<rparr>] newSong
       = (Inl (Error ''The first tempo event needs to start from tick 0''), newSong)"
  using overwriteTempoChanges_first
          [of "[\<lparr>ticks = 0, bpm = 100, time = 7\<rparr>, \<lparr>ticks = 480, bpm = 120, time = 9\<rparr>]"
              "\<lparr>ticks = 0, bpm = 100, time = 7\<rparr>" "setResolution 480 newSong"]
    overwriteTempoChanges_first[of "[]" undefined newSong]
    overwriteTempoChanges_first
          [of "[\<lparr>ticks = 5, bpm = 100, time = 0\<rparr>]" undefined newSong]
  by (simp add: setResolution_def newSong_def)

text \<open>
  Claim C6, as stated, fails in its clause on duplicate ticks: two tempo changes created
  at tick 0 of a new song with resolution 480 are both stored.
\<close>

theorem tempo_ticks_distinct_counterexample:
  "\<not> distinct (map ticks (tempos (snd (createTempoChange 0 100
        (snd (createTempoChange 0 120 (setResolution 480 newSong)))))))"
proof -
  let ?s = "setResolution 480 newSong"
  have s: "0 < PPQ ?s" "sorted (map ticks (tempos ?s))" "tempos ?s \<noteq> [] \<or> (0::int) = 0"
    by (simp_all add: setResolution_def newSong_def)
  from createTempoChange_shape[OF s, of 120] obtain tm es1 where
    a: "createTempoChange 0 120 ?s = (Inr \<lparr>ticks = 0, bpm = 120, time = tm\<rparr>, ?s\<lparr>tempos := es1\<rparr>)"
      "map ticks es1 = [0]"
    by (auto simp: setResolution_def newSong_def)
  let ?s1 = "?s\<lparr>tempos := es1\<rparr>"
  obtain e where e: "es1 = [e]" "ticks e = 0" using a(2) by auto
  have s1: "0 < PPQ ?s1" "sorted (map ticks (tempos ?s1))" "tempos ?s1 \<noteq> [] \<or> (0::int) = 0"
    using a(2) by (simp_all add: setResolution_def newSong_def)
  from createTempoChange_shape[OF s1, of 100] obtain tm2 es2 where
    b: "createTempoChange 0 100 ?s1
         = (Inr \<lparr>ticks = 0, bpm = 100, time = tm2\<rparr>, ?s1\<lparr>tempos := es2\<rparr>)"
      "map ticks es2 = [0, 0]"
    using e by (auto simp: below_def)
  show ?thesis using a(1) b by simp
qed

text \<open>
  Claim C6, amended. The invariant of the tempo sequence: when it is not empty its first
  event is at tick 0; it is sorted by tick, equal ticks allowed; every tempo is positive;
  every stored time is the integration of the tempo segments before the event. A new song
  has it, and \<open>createTempoChange\<close>, \<open>overwriteTempoChanges\<close>, \<open>updateTempo\<close> (resolution set)
  and \<open>importMIDI\<close> keep it, whatever their outcome, when the ticks they are given are not
  negative and the tempos positive.
\<close>

theorem tempoInvariant_preserved:
  assumes "tempoInvariant s"
  shows "tempoInvariant newSong
    \<and> (0 \<le> tk \<and> 0 < b \<longrightarrow> tempoInvariant (snd (createTempoChange tk b s)))
    \<and> (list_all (\<lambda>e. 0 \<le> ticks e \<and> 0 < bpm e) evs \<longrightarrow>
          tempoInvariant (snd (overwriteTempoChanges evs s)))
    \<and> (0 < PPQ s \<and> 0 < b \<longrightarrow> tempoInvariant (snd (updateTempo i b s)))
    \<and> (0 \<le> insertAtTick \<and> 0 < headerPpq midi
        \<and> list_all (\<lambda>r. 0 \<le> rawTempoTicks r \<and> 0 < rawTempoBpm r) (headerTempos midi) \<longrightarrow>
          tempoInvariant (snd (snd (importMIDI midi insertAtTick ov w s))))"
proof (intro conjI impI)
  show "tempoInvariant newSong" by (simp add: tempoInvariant_empty newSong_def)
next
  assume "0 \<le> tk \<and> 0 < b"
  then show "tempoInvariant (snd (createTempoChange tk b s))"
    using createTempoChange_invariant[OF assms] by simp
next
  assume "list_all (\<lambda>e. 0 \<le> ticks e \<and> 0 < bpm e) evs"
  then show "tempoInvariant (snd (overwriteTempoChanges evs s))"
    by (rule overwriteTempoChanges_invariant[OF assms])
next
  assume "0 < PPQ s \<and> 0 < b"
  then show "tempoInvariant (snd (updateTempo i b s))"
    using updateTempo_invariant[OF assms] by simp
next
  assume "0 \<le> insertAtTick \<and> 0 < headerPpq midi
        \<and> list_all (\<lambda>r. 0 \<le> rawTempoTicks r \<and> 0 < rawTempoBpm r) (headerTempos midi)"
  then show "tempoInvariant (snd (snd (importMIDI midi insertAtTick ov w s)))"
    using importMIDI_invariant[OF assms] by simp
qed

theorem tempoInvariant_preserved_witness:
  "tempoInvariant (snd (createTempoChange 480 100
       (newSong\<lparr>PPQ := 480, tempos := [\<lparr>ticks = 0, bpm = 120, time = 0\<rparr>]\<rparr>)))
   \<and> tempoInvariant (snd (overwriteTempoChanges
       [\<lparr>ticks = 0, bpm = 90, time = 3\<rparr>, \<lparr>ticks = 240, bpm = 60, time = 1\<rparr>]
       (newSong\<lparr>PPQ := 480, tempos := [\<lparr>ticks = 0, bpm = 120, time = 0\<rparr>]\<rparr>)))
   \<and> tempoInvariant (snd (updateTempo 0 100
       (newSong\<lparr>PPQ := 480, tempos := [\<lparr>ticks = 0, bpm = 120, time = 0\<rparr>]\<rparr>)))
   \<and> tempoInvariant (snd (snd (importMIDI
       \<lparr>headerPpq = 96, headerTimeSignatures = [],
        headerTempos = [\<lparr>rawTempoTicks = 0, rawTempoTime = 0, rawTempoBpm = 100\<rparr>,
                        \<lparr>rawTempoTicks = 48, rawTempoTime = 1, rawTempoBpm = 80\<rparr>],
        midiTracks = []\<rparr> 0 True
       \<lparr>plugins = (\<lambda>p. \<lparr>providerId = None, pluginId = None, songAccess = {},
                          generatedTrackIdsInternal = []\<rparr>),
        idSource = (\<lambda>n. []), idsDrawn = 0\<rparr>
       (newSong\<lparr>PPQ := 480, tempos := [\<lparr>ticks = 0, bpm = 120, time = 0\<rparr>]\<rparr>))))"
  using tempoInvariant_preserved
          [where s = "newSong\<lparr>PPQ := 480, tempos := [\<lparr>ticks = 0, bpm = 120, time = 0\<rparr>]\<rparr>"
             and tk = 480 and b = 100
             and evs = "[\<lparr>ticks = 0, bpm = 90, time = 3\<rparr>, \<lparr>ticks = 240, bpm = 60, time = 1\<rparr>]"
             and i = 0 and insertAtTick = 0 and ov = True
             and midi = "\<lparr>headerPpq = 96, headerTimeSignatures = [],
                headerTempos = [\<lparr>rawTempoTicks = 0, rawTempoTime = 0, rawTempoBpm = 100\<rparr>,
                                \<lparr>rawTempoTicks = 48, rawTempoTime = 1, rawTempoBpm = 80\<rparr>],
                midiTracks = []\<rparr>"
             and w = "\<lparr>plugins = (\<lambda>p. \<lparr>providerId = None, pluginId = None, songAccess = {},
                          generatedTrackIdsInternal = []\<rparr>),
                idSource = (\<lambda>n. []), idsDrawn = 0\<rparr>"]
  by (simp add: tempoInvariant_def newSong_def)

text \<open>
  Claim C7. In a song with exactly one tempo event, at tick 0 with tempo \<open>B\<close> and stored
  time 0, and with resolution \<open>R\<close>, \<open>tickToSeconds t\<close> is \<open>t * 60 / (B * R)\<close> for every tick
  \<open>t\<close>; and \<open>tickToSeconds 0\<close> is 0 in every song. Numbers are real numbers here, so the
  equation is exact.
\<close>

theorem tickToSeconds_constant_tempo:
  assumes "tempos s = [\<lparr>ticks = 0, bpm = B, time = 0\<rparr>]" and "PPQ s = R"
    and "0 < B" and "0 < R"
  shows "tickToSeconds s t = Inr (real_of_int t * 60 / (B * real_of_int R))
         \<and> tickToSeconds s' 0 = Inr 0"
proof
  show "tickToSeconds s t = Inr (real_of_int t * 60 / (B * real_of_int R))"
  proof (cases "t = 0")
    case True
    then show ?thesis by (simp add: tickToSeconds_def tickToSecondsImpl_zero)
  next
    case False
    have "tickToSecondsImpl t [\<lparr>ticks = 0, bpm = B, time = 0\<rparr>] R
          = Inr (0 + real_of_int (t - 0) / tempoBPMToTicksPerSecond B R)"
      using tickToSecondsImpl_sorted[of "[\<lparr>ticks = 0, bpm = B, time = 0\<rparr>]" t R] False
      by (simp add: below_single)
    then show ?thesis using assms
      by (simp add: tickToSeconds_def tempoBPMToTicksPerSecond_def)
  qed
  show "tickToSeconds s' 0 = Inr 0"
    by (simp add: tickToSeconds_def tickToSecondsImpl_zero)
qed

theorem tickToSeconds_constant_tempo_witness:
  "tickToSeconds (newSong\<lparr>PPQ := 480, tempos := [\<lparr>ticks = 0, bpm = 120, time = 0\<rparr>]\<rparr>) 960
     = Inr 1
   \<and> tickToSeconds newSong 0 = Inr 0"
  using tickToSeconds_constant_tempo
          [of "newSong\<lparr>PPQ := 480, tempos := [\<lparr>ticks = 0, bpm = 120, time = 0\<rparr>]\<rparr>"
              120 480 960 newSong]
  by simp



text \<open>
  Claim C9. \<open>createTempoChange\<close> throws exactly when the resolution of the song has not
  been set (\<open>PPQ \<le> 0\<close>), or when the tempo sequence is empty and the requested tick is not
  0. In both cases the error is raised before anything is inserted: the song is returned
  as it was. In every other case the call returns the new event, and the tempo sequence
  has grown by one.
\<close>

theorem createTempoChange_throws:
  "(PPQ s \<le> 0 \<longrightarrow>
      createTempoChange tk b s
      = (Inl (Error ''Song resolution must be provided before creating tempo changes.''), s))
   \<and> (0 < PPQ s \<and> tempos s = [] \<and> tk \<noteq> 0 \<longrightarrow>
      createTempoChange tk b s = (Inl (Error ''The first tempo event must be at tick 0''), s))
   \<and> (0 < PPQ s \<and> (tempos s \<noteq> [] \<or> tk = 0) \<longrightarrow>
      (\<exists>ev s'. createTempoChange tk b s = (Inr ev, s')
               \<and> length (tempos s') = Suc (length (tempos s))))"
proof (intro conjI impI)
  assume "PPQ s \<le> 0"
  then show "createTempoChange tk b s
      = (Inl (Error ''Song resolution must be provided before creating tempo changes.''), s)"
    by (simp add: createTempoChange_def)
next
  assume "0 < PPQ s \<and> tempos s = [] \<and> tk \<noteq> 0"
  then show "createTempoChange tk b s
      = (Inl (Error ''The first tempo event must be at tick 0''), s)"
    by (simp add: createTempoChange_def)
next
  assume ok: "0 < PPQ s \<and> (tempos s \<noteq> [] \<or> tk = 0)"
  then obtain tm where tm: "tickToSeconds s tk = Inr tm"
    using tickToSeconds_total[of s tk] by blast
  let ?tempoChange = "\<lparr>ticks = tk, bpm = b, time = tm\<rparr>"
  let ?insertIndex = "greaterEqual (tempos s) ?tempoChange (\<lambda>a b. ticks a - ticks b)"
  let ?s1 = "(if ?insertIndex < 0
              then s\<lparr>tempos := tempos s @ [?tempoChange]\<rparr>
              else s\<lparr>tempos := splice_insert (tempos s) ?insertIndex ?tempoChange\<rparr>)"
  have len: "length (tempos ?s1) = Suc (length (tempos s))"
    by (simp add: splice_insert_length)
  then have "tempos ?s1 \<noteq> []" by (metis length_0_conv nat.distinct(1))
  from retimingTempoEvents_total[OF this] obtain s2 where
    s2: "retimingTempoEvents ?s1 = (Inr (), s2)" "length (tempos s2) = length (tempos ?s1)"
    by blast
  have "createTempoChange tk b s = (Inr ?tempoChange, s2)"
    using ok tm s2(1) by (simp add: createTempoChange_def Let_def)
  then show "\<exists>ev s'. createTempoChange tk b s = (Inr ev, s')
                     \<and> length (tempos s') = Suc (length (tempos s))"
    using s2(2) len by simp
qed

theorem createTempoChange_throws_witness:
  "createTempoChange 0 120 newSong
     = (Inl (Error ''Song resolution must be provided before creating tempo changes.''), newSong)
   \<and> createTempoChange 5 120 (setResolution 480 newSong)
     = (Inl (Error ''The first tempo event must be at tick 0''), setResolution 480 newSong)
   \<and> (\<exists>ev s'. createTempoChange 0 120 (setResolution 480 newSong) = (Inr ev, s')
              \<and> length (tempos s') = Suc 0)"
  using createTempoChange_throws[of newSong 0 120]
    createTempoChange_throws[of "setResolution 480 newSong" 5 120]
    createTempoChange_throws[of "setResolution 480 newSong" 0 120]
  by (simp add: newSong_def setResolution_def)

text \<open>
  Claim C10. With a context attached whose plugin has the \<open>removeTrack\<close> capability,
  \<open>removeTrack\<close> with an identifier that no track of the song has returns \<open>null\<close> and leaves
  the song as it was; when a track has the identifier, the first such track is taken out of
  the list, the other tracks keeping their order, and returned.
\<close>

theorem removeTrack_result:
  assumes "pluginContext s = Some ctx"
    and "''removeTrack'' \<in> songAccess (plugins w (plugin ctx))"
  shows "(list_all (\<lambda>track. uuid track \<noteq> tid) (tracks s) \<longrightarrow>
            removeTrack tid w s = (Inr None, w, s))
       \<and> (tracks s = before @ track # after \<and> uuid track = tid
           \<and> list_all (\<lambda>track. uuid track \<noteq> tid) before \<longrightarrow>
            removeTrack tid w s = (Inr (Some track), w, s\<lparr>tracks := before @ after\<rparr>))"
proof (intro conjI impI)
  have acc: "checkAccess ''removeTrack'' w s = Inr ()"
    using assms by (simp add: checkAccess_def)
  {
    assume "list_all (\<lambda>track. uuid track \<noteq> tid) (tracks s)"
    then have "getTrackById s tid = None"
      unfolding getTrackById_def by (intro find_none) (simp add: list_all_iff)
    then show "removeTrack tid w s = (Inr None, w, s)"
      using acc by (simp add: removeTrack_def)
  }
  {
    assume a: "tracks s = before @ track # after \<and> uuid track = tid
           \<and> list_all (\<lambda>track. uuid track \<noteq> tid) before"
    then have nb: "list_all (\<lambda>x. \<not> uuid x = tid) before" by (simp add: list_all_iff)
    have f: "getTrackById s tid = Some track"
      unfolding getTrackById_def using a find_first[OF nb, of track after] by simp
    have i: "findIndex (tracks s) (\<lambda>track. uuid track = tid) = int (length before)"
      using a findIndex_first[OF nb, of track after] by simp
    show "removeTrack tid w s = (Inr (Some track), w, s\<lparr>tracks := before @ after\<rparr>)"
      using acc f i a by (simp add: removeTrack_def splice_remove_at)
  }
qed

theorem removeTrack_result_witness:
  "removeTrack ''b''
     \<lparr>plugins = (\<lambda>p. \<lparr>providerId = Some ''acme'', pluginId = Some ''maker'',
                       songAccess = {''removeTrack''}, generatedTrackIdsInternal = []\<rparr>),
      idSource = (\<lambda>n. ''t''), idsDrawn = 0\<rparr>
     (setPluginContextInternal 0 newSong)
   = (Inr None,
      \<lparr>plugins = (\<lambda>p. \<lparr>providerId = Some ''acme'', pluginId = Some ''maker'',
                       songAccess = {''removeTrack''}, generatedTrackIdsInternal = []\<rparr>),
       idSource = (\<lambda>n. ''t''), idsDrawn = 0\<rparr>,
      setPluginContextInternal 0 newSong)
   \<and> removeTrack ''b''
     \<lparr>plugins = (\<lambda>p. \<lparr>providerId = Some ''acme'', pluginId = Some ''maker'',
                       songAccess = {''removeTrack''}, generatedTrackIdsInternal = []\<rparr>),
      idSource = (\<lambda>n. ''t''), idsDrawn = 0\<rparr>
     (setPluginContextInternal 0 newSong
        \<lparr>tracks := [\<lparr>trackType = MIDI_TRACK, uuid = ''a'', rank = 1, instrument = None,
                      clips = [], volumeAutomation = None, panAutomation = None\<rparr>,
                     \<lparr>trackType = AUDIO_TRACK, uuid = ''b'', rank = 2, instrument = None,
                      clips = [], volumeAutomation = None, panAutomation = None\<rparr>]\<rparr>)
   = (Inr (Some \<lparr>trackType = AUDIO_TRACK, uuid = ''b'', rank = 2, instrument = None,
                 clips = [], volumeAutomation = None, panAutomation = None\<rparr>),
      \<lparr>plugins = (\<lambda>p. \<lparr>providerId = Some ''acme'', pluginId = Some ''maker'',
                       songAccess = {''removeTrack''}, generatedTrackIdsInternal = []\<rparr>),
       idSource = (\<lambda>n. ''t''), idsDrawn = 0\<rparr>,
      setPluginContextInternal 0 newSong
        \<lparr>tracks := [\<lparr>trackType = MIDI_TRACK, uuid = ''a'', rank = 1, instrument = None,
                      clips = [], volumeAutomation = None, panAutomation = None\<rparr>]\<rparr>)"
  using removeTrack_result
          [where s = "setPluginContextInternal 0 newSong" and tid = "''b''"
             and ctx = "\<lparr>plugin = 0, numTracksCreatedByPlugin = 0\<rparr>"
             and w = "\<lparr>plugins = (\<lambda>p. \<lparr>providerId = Some ''acme'', pluginId = Some ''maker'',
                       songAccess = {''removeTrack''}, generatedTrackIdsInternal = []\<rparr>),
                      idSource = (\<lambda>n. ''t''), idsDrawn = 0\<rparr>"]
    removeTrack_result
          [where s = "setPluginContextInternal 0 newSong
        \<lparr>tracks := [\<lparr>trackType = MIDI_TRACK, uuid = ''a'', rank = 1, instrument = None,
                      clips = [], volumeAutomation = None, panAutomation = None\<rparr>,
                     \<lparr>trackType = AUDIO_TRACK, uuid = ''b'', rank = 2, instrument = None,
                      clips = [], volumeAutomation = None, panAutomation = None\<rparr>]\<rparr>"
             and tid = "''b''"
             and ctx = "\<lparr>plugin = 0, numTracksCreatedByPlugin = 0\<rparr>"
             and before = "[\<lparr>trackType = MIDI_TRACK, uuid = ''a'', rank = 1, instrument = None,
                      clips = [], volumeAutomation = None, panAutomation = None\<rparr>]"
             and track = "\<lparr>trackType = AUDIO_TRACK, uuid = ''b'', rank = 2, instrument = None,
                      clips = [], volumeAutomation = None, panAutomation = None\<rparr>"
             and after = "[]"
             and w = "\<lparr>plugins = (\<lambda>p. \<lparr>providerId = Some ''acme'', pluginId = Some ''maker'',
                       songAccess = {''removeTrack''}, generatedTrackIdsInternal = []\<rparr>),
                      idSource = (\<lambda>n. ''t''), idsDrawn = 0\<rparr>"]
  by (simp add: newSong_def setPluginContextInternal_def)

end
